theory Spec2Isabelle
  imports Complex_Main "HOL-Library.Sublist" "HOL-Library.Multiset"
begin

section \<open>Data model (src/types/delivery.ts)\<close>

text \<open>
  JavaScript numbers are IEEE-754 doubles. The model has two readings of them. In
  the first a number is the real number it denotes and arithmetic is exact, with
  \<open>undefined\<close> and \<open>NaN\<close> as \<open>None\<close>; it is used where the numbers of the
  input make both readings agree. In the second (type \<open>double\<close> below) every
  operation rounds to the nearest double, and overflow, the infinities and \<open>NaN\<close> are
  values; the cost formula and the distances of the nearest-neighbour loop are read
  this way. Strings are byte lists (the UTF-8 encoding of a well-formed string).
\<close>

text \<open>
  \<open>interface Location { lat: number; lng: number }\<close> and the optional
  \<open>lat?: number; lng?: number\<close> of \<open>Delivery\<close> share their field names, so
  the pair of coordinates is one record, polymorphic in what a coordinate is:
  a number for a \<open>Location\<close>, an optional number for a \<open>Delivery\<close> and for the
  coordinates of a request body before validation.
\<close>

record 'a latlng =
  lat :: 'a
  lng :: 'a

type_synonym location = "real latlng"

record delivery = "real option latlng" +
  codigo :: string
  articulo :: string
  calle :: string
  numero :: string
  sector :: string
  cp :: string
  ubicacion :: string
  cliente :: string
  telefono :: string
  direccionCompleta :: "string option"

text \<open>
  \<open>OptimizedDelivery extends Delivery\<close>. Both endpoints build it with an object
  spread \<open>{...delivery, orderIndex: ..., ...}\<close>; the spread of \<open>undefined\<close>
  (an index outside the array) contributes no field, which is \<open>original = None\<close>.
\<close>

record optimized_delivery =
  original :: "delivery option"
  orderIndex :: nat
  estimatedArrival :: "string option"
  distanceFromPrevious :: "int option"

section \<open>Mapping the visits of a route (src/app/api/optimize/route.ts, lines 193-204)\<close>

text \<open>A visit of the raw response: \<open>{shipmentIndex, startTime}\<close>, both possibly absent.\<close>

record visit =
  shipmentIndex :: "int option"
  startTime :: "string option"

text \<open>\<open>body.deliveries[i]\<close>: \<open>undefined\<close> when the index is not one of the array.\<close>

definition js_index :: "'a list \<Rightarrow> int option \<Rightarrow> 'a option" where
  "js_index xs i =
     (case i of
        None \<Rightarrow> None
      | Some k \<Rightarrow> if 0 \<le> k \<and> k < int (length xs) then Some (xs ! nat k) else None)"

text \<open>
  \<open>visits.filter(v => v.shipmentIndex !== undefined).map((visit, index) => ...)\<close>:
  the callback's second argument is the position in the filtered array.
\<close>

definition mapVisits :: "delivery list \<Rightarrow> visit list \<Rightarrow> optimized_delivery list" where
  "mapVisits deliveries visits =
     map (\<lambda>(index, visit).
            \<lparr>original = js_index deliveries (shipmentIndex visit),
             orderIndex = index + 1,
             estimatedArrival = startTime visit,
             distanceFromPrevious = None\<rparr>)
         (enumerate 0 (filter (\<lambda>visit. shipmentIndex visit \<noteq> None) visits))"


text \<open>A delivery with a business id and coordinates, the other fields empty.\<close>

definition stop_at :: "string \<Rightarrow> real \<Rightarrow> real \<Rightarrow> delivery" where
  "stop_at c la lo =
     \<lparr>lat = Some la, lng = Some lo, codigo = c, articulo = [], calle = [], numero = [],
      sector = [], cp = [], ubicacion = [], cliente = [], telefono = [],
      direccionCompleta = None\<rparr>"


section \<open>Double-precision numbers\<close>

text \<open>
  A double: a finite value (the real number it denotes), an infinity, or \<open>NaN\<close>.
  The two zeros are one value: the source divides by non-zero literals only and
  takes \<open>Math.atan2\<close> of square roots only, so no result depends on the sign of a
  zero.
\<close>

datatype double = Num real | PosInf | NegInf | NaN

text \<open>\<open>\<lfloor>log\<^sub>2 n\<rfloor>\<close> for \<open>n > 0\<close>, and \<open>\<lfloor>log\<^sub>2 a\<rfloor>\<close> for a real \<open>a > 0\<close>.\<close>

fun ilog2 :: "nat \<Rightarrow> nat" where
  "ilog2 n = (if n < 2 then 0 else ilog2 (n div 2) + 1)"

declare ilog2.simps [simp del]

definition floor_log2 :: "real \<Rightarrow> int" where
  "floor_log2 a =
     (if 1 \<le> a then int (ilog2 (nat \<lfloor>a\<rfloor>))
      else - int (let n = nat \<lceil>1 / a\<rceil> in if n \<le> 1 then 0 else ilog2 (n - 1) + 1))"

definition pow2 :: "int \<Rightarrow> real" where
  "pow2 e = (if 0 \<le> e then 2 ^ nat e else 1 / 2 ^ nat (- e))"

text \<open>The nearest integer, a tie going to the even one.\<close>

definition round_half_even :: "real \<Rightarrow> int" where
  "round_half_even m =
     (let f = \<lfloor>m\<rfloor>; r = m - of_int f
      in if r < 1 / 2 then f else if 1 / 2 < r then f + 1 else if even f then f else f + 1)"

text \<open>
  Rounding to nearest, ties to even, in binary64: a significand of 53 bits, so the
  unit in the last place of \<open>x\<close> is \<open>2 ^ (\<lfloor>log\<^sub>2 \<bar>x\<bar>\<rfloor> - 52)\<close>, and never less than
  \<open>2 ^ (- 1074)\<close> (the subnormal numbers). \<open>fl\<close> has no largest exponent;
  \<open>fl_double\<close> adds it: from \<open>2 ^ 1024 - 2 ^ 970\<close> on, halfway between the largest
  double \<open>2 ^ 1024 - 2 ^ 971\<close> and \<open>2 ^ 1024\<close>, the result is an infinity.
\<close>

definition fl :: "real \<Rightarrow> real" where
  "fl x =
     (if x = 0 then 0
      else let a = \<bar>x\<bar>;
               u = pow2 (max (floor_log2 a - 52) (- 1074))
           in sgn x * (of_int (round_half_even (a / u)) * u))"

definition fl_double :: "real \<Rightarrow> double" where
  "fl_double x =
     (if 2 ^ 1024 - 2 ^ 970 \<le> x then PosInf
      else if x \<le> - (2 ^ 1024 - 2 ^ 970) then NegInf
      else Num (fl x))"

text \<open>\<open>x + y\<close>, \<open>x - y\<close> and \<open>x * y\<close> of IEEE-754.\<close>

fun double_add :: "double \<Rightarrow> double \<Rightarrow> double" where
  "double_add NaN y = NaN"
| "double_add x NaN = NaN"
| "double_add (Num x) (Num y) = fl_double (x + y)"
| "double_add PosInf NegInf = NaN"
| "double_add NegInf PosInf = NaN"
| "double_add PosInf y = PosInf"
| "double_add x PosInf = PosInf"
| "double_add NegInf y = NegInf"
| "double_add x NegInf = NegInf"

fun double_sub :: "double \<Rightarrow> double \<Rightarrow> double" where
  "double_sub NaN y = NaN"
| "double_sub x NaN = NaN"
| "double_sub (Num x) (Num y) = fl_double (x - y)"
| "double_sub PosInf PosInf = NaN"
| "double_sub NegInf NegInf = NaN"
| "double_sub PosInf y = PosInf"
| "double_sub x PosInf = NegInf"
| "double_sub NegInf y = NegInf"
| "double_sub x NegInf = PosInf"

definition infinity_times :: "bool \<Rightarrow> real \<Rightarrow> double" where
  "infinity_times positive y =
     (if y = 0 then NaN else if (0 < y) = positive then PosInf else NegInf)"

fun double_mul :: "double \<Rightarrow> double \<Rightarrow> double" where
  "double_mul NaN y = NaN"
| "double_mul x NaN = NaN"
| "double_mul (Num x) (Num y) = fl_double (x * y)"
| "double_mul PosInf (Num y) = infinity_times True y"
| "double_mul NegInf (Num y) = infinity_times False y"
| "double_mul (Num x) PosInf = infinity_times True x"
| "double_mul (Num x) NegInf = infinity_times False x"
| "double_mul PosInf PosInf = PosInf"
| "double_mul NegInf NegInf = PosInf"
| "double_mul PosInf NegInf = NegInf"
| "double_mul NegInf PosInf = NegInf"

text \<open>
  \<open>x / c\<close> for a divisor that is a positive literal of the source (180, 2, 1000,
  30, 3600).
\<close>

definition double_div :: "double \<Rightarrow> real \<Rightarrow> double" where
  "double_div x c = (case x of Num a \<Rightarrow> fl_double (a / c) | _ \<Rightarrow> x)"

text \<open>\<open>x < y\<close>: false as soon as one side is \<open>NaN\<close>.\<close>

fun double_less :: "double \<Rightarrow> double \<Rightarrow> bool" where
  "double_less NaN y = False"
| "double_less x NaN = False"
| "double_less (Num x) (Num y) = (x < y)"
| "double_less x NegInf = False"
| "double_less NegInf y = True"
| "double_less PosInf y = False"
| "double_less (Num x) PosInf = True"

text \<open>\<open>Math.round\<close>: the nearest integer, a tie going up; infinities and \<open>NaN\<close> stay.\<close>

definition Math_round_double :: "double \<Rightarrow> double" where
  "Math_round_double x = (case x of Num a \<Rightarrow> Num (of_int \<lfloor>a + 1 / 2\<rfloor>) | _ \<Rightarrow> x)"

text \<open>\<open>Math.PI\<close>, the double nearest to \<open>\<pi>\<close>.\<close>

definition Math_PI :: double where
  "Math_PI = Num (884279719003555 / 281474976710656)"

text \<open>
  ECMAScript leaves the results of \<open>Math.sin\<close>, \<open>Math.cos\<close>, \<open>Math.sqrt\<close> and
  \<open>Math.atan2\<close> to the implementation ("implementation-approximated"), and fixes
  them only at special arguments. What the engine's library returns elsewhere is a
  parameter; the fixed cases are written out: \<open>NaN\<close> for a \<open>NaN\<close> or infinite
  argument of \<open>sin\<close> and \<open>cos\<close>, \<open>sin 0 = 0\<close>, \<open>cos 0 = 1\<close>; \<open>NaN\<close> for the root of
  \<open>NaN\<close> or of a negative number, \<open>sqrt 0 = 0\<close>, \<open>sqrt \<infinity> = \<infinity>\<close>; \<open>NaN\<close> for
  \<open>atan2\<close> with a \<open>NaN\<close> argument and \<open>atan2(0, x) = 0\<close> for \<open>x \<ge> 0\<close>.
\<close>

record libm =
  sin_finite :: "real \<Rightarrow> real"
  cos_finite :: "real \<Rightarrow> real"
  sqrt_finite :: "real \<Rightarrow> real"
  atan2_other :: "double \<Rightarrow> double \<Rightarrow> real"

definition Math_sin_double :: "libm \<Rightarrow> double \<Rightarrow> double" where
  "Math_sin_double lib x =
     (case x of Num a \<Rightarrow> if a = 0 then Num 0 else Num (sin_finite lib a) | _ \<Rightarrow> NaN)"

definition Math_cos_double :: "libm \<Rightarrow> double \<Rightarrow> double" where
  "Math_cos_double lib x =
     (case x of Num a \<Rightarrow> if a = 0 then Num 1 else Num (cos_finite lib a) | _ \<Rightarrow> NaN)"

definition Math_sqrt_double :: "libm \<Rightarrow> double \<Rightarrow> double" where
  "Math_sqrt_double lib x =
     (case x of
        Num a \<Rightarrow> if a < 0 then NaN else if a = 0 then Num 0 else Num (sqrt_finite lib a)
      | PosInf \<Rightarrow> PosInf
      | _ \<Rightarrow> NaN)"

definition Math_atan2_double :: "libm \<Rightarrow> double \<Rightarrow> double \<Rightarrow> double" where
  "Math_atan2_double lib y x =
     (if y = NaN \<or> x = NaN then NaN
      else if y = Num 0 \<and> (double_less (Num 0) x \<or> x = Num 0) then Num 0
      else Num (atan2_other lib y x))"


section \<open>Configuration and cost (src/app/lib/google-maps.ts)\<close>

record route_optimization_config =
  durationPerDelivery :: nat
  costPerKilometer :: real
  costPerHour :: real
  timeWindowHours :: int

definition ROUTE_OPTIMIZATION_CONFIG :: route_optimization_config where
  "ROUTE_OPTIMIZATION_CONFIG =
     \<lparr>durationPerDelivery = 300, costPerKilometer = 1, costPerHour = 0.5, timeWindowHours = 8\<rparr>"

text \<open>
  \<open>parseFloat(x.toFixed(f))\<close>, after \<open>Number.prototype.toFixed\<close> of ECMAScript:
  \<open>NaN\<close> and the infinities are printed by name and read back; a negative \<open>x\<close> is
  printed as \<open>-\<close> followed by the digits of \<open>-x\<close>; from \<open>10^21\<close> on the digits are
  those of \<open>ToString(x)\<close>, which \<open>parseFloat\<close> reads back as \<open>x\<close>; below, they are
  those of the integer \<open>n\<close> for which \<open>n / 10^f - x\<close> is closest to zero, the larger
  \<open>n\<close> when there are two, and \<open>parseFloat\<close> yields the double nearest to
  \<open>n / 10^f\<close>.
\<close>

definition parseFloat_toFixed :: "double \<Rightarrow> nat \<Rightarrow> double" where
  "parseFloat_toFixed x f =
     (case x of
        Num v \<Rightarrow>
          (let s = (if v < 0 then - 1 else 1);
               v = (if v < 0 then - v else v)
           in if 10 ^ 21 \<le> v then Num (s * v)
              else fl_double (s * (of_int \<lfloor>v * 10 ^ f + 1 / 2\<rfloor> / 10 ^ f)))
      | _ \<Rightarrow> x)"

definition calculateRouteCost :: "double \<Rightarrow> double \<Rightarrow> double" where
  "calculateRouteCost distanceMeters durationSeconds =
     (let distanceKm = double_div distanceMeters 1000;
          durationHours = double_div durationSeconds 3600;
          distanceCost = double_mul distanceKm (Num (costPerKilometer ROUTE_OPTIMIZATION_CONFIG));
          timeCost = double_mul durationHours (Num (costPerHour ROUTE_OPTIMIZATION_CONFIG))
      in parseFloat_toFixed (double_add distanceCost timeCost) 2)"

text \<open>
  A double where the first reading expects a number: the finite value, \<open>None\<close> for
  \<open>NaN\<close> and the infinities (which \<open>JSON.stringify\<close> prints as \<open>null\<close>); and back.
\<close>

definition finite_value :: "double \<Rightarrow> real option" where
  "finite_value x = (case x of Num v \<Rightarrow> Some v | _ \<Rightarrow> None)"

definition to_double :: "real option \<Rightarrow> double" where
  "to_double x = (case x of None \<Rightarrow> NaN | Some v \<Rightarrow> Num v)"

section \<open>Requests, responses and the environment\<close>

text \<open>
  \<open>process.env\<close>: a variable that is not set is \<open>None\<close>. The service-account
  variable holds JSON text; what \<open>JSON.parse\<close> makes of it is its value here:
  text that does not parse, or an object with its \<open>client_email\<close> and
  \<open>private_key\<close> members (absent members are \<open>None\<close>).
\<close>

datatype credentials_json = Unparsable | Parsed "string option" "string option"

record env =
  GOOGLE_MAPS_API_KEY :: "string option"
  GOOGLE_CLOUD_PROJECT_ID :: "string option"
  GOOGLE_SERVICE_ACCOUNT_CREDENTIALS :: "credentials_json option"

text \<open>\<open>!s\<close> for an optional string: absent or empty.\<close>

definition falsy_string :: "string option \<Rightarrow> bool" where
  "falsy_string s = (s = None \<or> s = Some [])"

text \<open>\<open>!x\<close> for an optional number: absent or zero.\<close>

definition falsy_number :: "real option \<Rightarrow> bool" where
  "falsy_number x = (x = None \<or> x = Some 0)"

text \<open>
  The body of an optimization request. \<open>deliveries\<close> may be missing (or otherwise
  falsy), something that is not an array, or an array of deliveries.
\<close>

datatype deliveries_field = NoDeliveries | NotAnArray | Deliveries "delivery list"

record optimize_request =
  deliveries :: deliveries_field
  warehouseLocation :: "real option latlng option"
  requestStartTime :: "string option"

text \<open>
  What a handler answers: \<open>NextResponse.json(body, {status})\<close> with an error body, or
  the route with status 200. The error bodies are told apart by a tag, not by their
  message text.
\<close>

datatype api_error =
    DeliveriesRequired
  | DeliveriesEmpty
  | DeliveriesRequiredNonEmpty
  | MissingCoordinates nat
  | WarehouseRequired
  | UpstreamError
  | NoRouteFound
  | InternalError

record route_leg =
  startLocation :: location
  endLocation :: location
  distanceMeters :: real
  durationSeconds :: "real option"

record route_detail =
  polyline :: "string option"
  legs :: "route_leg list option"

record optimized_route =
  optimizedDeliveries :: "optimized_delivery list"
  totalDistanceMeters :: real
  totalDurationSeconds :: "real option"
  estimatedCost :: "real option"
  route :: "route_detail option"

datatype response = Error_response nat api_error | Route_response optimized_route


section \<open>The signed assertion (src/app/lib/google-maps.ts, createJWT)\<close>

text \<open>
  \<open>Buffer.from(input).toString('base64')\<close>: the bytes three at a time, each group
  as four characters of the alphabet, the last group padded with \<open>=\<close>.
\<close>

definition base64_alphabet :: string where
  "base64_alphabet = ''ABCDEFGHIJKLMNOPQRSTUVWXYZabcdefghijklmnopqrstuvwxyz0123456789+/''"

definition base64_char :: "nat \<Rightarrow> char" where
  "base64_char n = base64_alphabet ! n"

fun base64 :: "string \<Rightarrow> string" where
  "base64 [] = []"
| "base64 [a] =
     (let x = of_char a :: nat
      in [base64_char (x div 4), base64_char ((x mod 4) * 16), CHR ''='', CHR ''=''])"
| "base64 [a, b] =
     (let x = of_char a :: nat; y = of_char b :: nat
      in [base64_char (x div 4), base64_char ((x mod 4) * 16 + y div 16),
          base64_char ((y mod 16) * 4), CHR ''=''])"
| "base64 (a # b # c # rest) =
     (let x = of_char a :: nat; y = of_char b :: nat; z = of_char c :: nat
      in [base64_char (x div 4), base64_char ((x mod 4) * 16 + y div 16),
          base64_char ((y mod 16) * 4 + z div 64), base64_char (z mod 64)] @ base64 rest)"

definition replace_all :: "char \<Rightarrow> char \<Rightarrow> string \<Rightarrow> string" where
  "replace_all c d s = map (\<lambda>x. if x = c then d else x) s"

definition remove_all :: "char \<Rightarrow> string \<Rightarrow> string" where
  "remove_all c s = filter (\<lambda>x. x \<noteq> c) s"

definition base64url :: "string \<Rightarrow> string" where
  "base64url input =
     remove_all CHR ''='' (replace_all CHR ''/'' CHR ''_'' (replace_all CHR ''+'' CHR ''-'' (base64 input)))"


text \<open>The character codes of the alphabet, and the decoder the claims speak of.\<close>

definition base64_code :: "nat \<Rightarrow> nat" where
  "base64_code n =
     (if n < 26 then 65 + n
      else if n < 52 then 71 + n
      else if n < 62 then n - 4
      else if n = 62 then 43 else 47)"


definition base64url_value :: "char \<Rightarrow> nat option" where
  "base64url_value c =
     (let k = of_char c :: nat
      in if 65 \<le> k \<and> k \<le> 90 then Some (k - 65)
         else if 97 \<le> k \<and> k \<le> 122 then Some (k - 71)
         else if 48 \<le> k \<and> k \<le> 57 then Some (k + 4)
         else if k = 45 then Some 62
         else if k = 95 then Some 63
         else None)"

fun base64url_decode :: "string \<Rightarrow> string option" where
  "base64url_decode [] = Some []"
| "base64url_decode [c1] = None"
| "base64url_decode [c1, c2] =
     (case (base64url_value c1, base64url_value c2) of
        (Some s1, Some s2) \<Rightarrow> Some [char_of (s1 * 4 + s2 div 16)]
      | _ \<Rightarrow> None)"
| "base64url_decode [c1, c2, c3] =
     (case (base64url_value c1, base64url_value c2, base64url_value c3) of
        (Some s1, Some s2, Some s3) \<Rightarrow>
          Some [char_of (s1 * 4 + s2 div 16), char_of ((s2 mod 16) * 16 + s3 div 4)]
      | _ \<Rightarrow> None)"
| "base64url_decode (c1 # c2 # c3 # c4 # rest) =
     (case (base64url_value c1, base64url_value c2, base64url_value c3, base64url_value c4) of
        (Some s1, Some s2, Some s3, Some s4) \<Rightarrow>
          (case base64url_decode rest of
             None \<Rightarrow> None
           | Some bytes \<Rightarrow>
               Some ([char_of (s1 * 4 + s2 div 16), char_of ((s2 mod 16) * 16 + s3 div 4),
                      char_of ((s3 mod 4) * 64 + s4)] @ bytes))
      | _ \<Rightarrow> None)"

definition valid_base64url :: "string \<Rightarrow> bool" where
  "valid_base64url s = list_all (\<lambda>c. base64url_value c \<noteq> None) s"

definition url_char :: "nat \<Rightarrow> char" where
  "url_char n =
     (let c = base64_char n;
          c = (if c = CHR ''+'' then CHR ''-'' else c)
      in if c = CHR ''/'' then CHR ''_'' else c)"


text \<open>
  \<open>JSON.stringify\<close> of an object whose members are strings and integers, as the
  header and the payload are. \<open>QuoteJSONString\<close> escapes the quote, the backslash
  and the control characters; an integer is printed in decimal.
\<close>

datatype json_value = JString string | JNumber int

definition hex_digit :: "nat \<Rightarrow> char" where
  "hex_digit n = ''0123456789abcdef'' ! n"

definition QuoteJSONString_char :: "char \<Rightarrow> string" where
  "QuoteJSONString_char c =
     (let k = of_char c :: nat
      in if k = 8 then [CHR 0x5C, CHR ''b'']
         else if k = 9 then [CHR 0x5C, CHR ''t'']
         else if k = 10 then [CHR 0x5C, CHR ''n'']
         else if k = 12 then [CHR 0x5C, CHR ''f'']
         else if k = 13 then [CHR 0x5C, CHR ''r'']
         else if k = 34 then [CHR 0x5C, CHR 0x22]
         else if k = 92 then [CHR 0x5C, CHR 0x5C]
         else if k < 32 then
           [CHR 0x5C, CHR ''u'', CHR ''0'', CHR ''0'', hex_digit (k div 16), hex_digit (k mod 16)]
         else [c])"

definition QuoteJSONString :: "string \<Rightarrow> string" where
  "QuoteJSONString s = [CHR 0x22] @ concat (map QuoteJSONString_char s) @ [CHR 0x22]"

definition decimal_digit :: "nat \<Rightarrow> char" where
  "decimal_digit n = ''0123456789'' ! n"

fun digits_of :: "nat \<Rightarrow> string" where
  "digits_of n =
     (if n < 10 then [decimal_digit n] else digits_of (n div 10) @ [decimal_digit (n mod 10)])"

declare digits_of.simps [simp del]

definition Number_toString :: "int \<Rightarrow> string" where
  "Number_toString i = (if i < 0 then CHR ''-'' # digits_of (nat (- i)) else digits_of (nat i))"

fun JSON_stringify_value :: "json_value \<Rightarrow> string" where
  "JSON_stringify_value (JString s) = QuoteJSONString s"
| "JSON_stringify_value (JNumber i) = Number_toString i"

fun join :: "string \<Rightarrow> string list \<Rightarrow> string" where
  "join sep [] = []"
| "join sep [x] = x"
| "join sep (x # y # ys) = x @ sep @ join sep (y # ys)"

definition JSON_stringify :: "(string \<times> json_value) list \<Rightarrow> string" where
  "JSON_stringify members =
     ''{'' @ join '','' (map (\<lambda>(k, v). QuoteJSONString k @ '':'' @ JSON_stringify_value v) members)
     @ ''}''"

fun split_on :: "char \<Rightarrow> string \<Rightarrow> string list" where
  "split_on c [] = [[]]"
| "split_on c (x # xs) =
     (if x = c then [] # split_on c xs
      else (case split_on c xs of
              [] \<Rightarrow> [[x]]
            | seg # segs \<Rightarrow> (x # seg) # segs))"


text \<open>
  What lies outside the program: the clock, the RSA-SHA256 signature of
  \<open>crypto.createSign\<close> (\<open>None\<close> when it throws), \<open>Date\<close> parsing, \<open>parseInt\<close>
  and the two remote endpoints.
\<close>

datatype token_reply = Token_throws | Token_not_ok | Token_ok "string option"

record service_account =
  client_email :: string
  private_key :: string

record signer_world =
  Date_now :: int
  rsa_sha256_sign :: "string \<Rightarrow> string \<Rightarrow> string option"

definition createJWT :: "'a signer_world_scheme \<Rightarrow> service_account \<Rightarrow> string \<Rightarrow> string option" where
  "createJWT w serviceAccount scope =
     (let now = Date_now w div 1000;
          expiry = now + 3600;
          header = [(''alg'', JString ''RS256''), (''typ'', JString ''JWT'')];
          payload =
            [(''iss'', JString (client_email serviceAccount)),
             (''scope'', JString scope),
             (''aud'', JString ''https://oauth2.googleapis.com/token''),
             (''exp'', JNumber expiry),
             (''iat'', JNumber now)];
          headerEncoded = base64url (JSON_stringify header);
          payloadEncoded = base64url (JSON_stringify payload);
          signatureInput = headerEncoded @ ''.'' @ payloadEncoded
      in case rsa_sha256_sign w (private_key serviceAccount) signatureInput of
           None \<Rightarrow> None
         | Some signature_bytes \<Rightarrow>
             (let signature = base64 signature_bytes;
                  signatureEncoded =
                    remove_all CHR ''=''
                      (replace_all CHR ''/'' CHR ''_'' (replace_all CHR ''+'' CHR ''-'' signature))
              in Some (signatureInput @ ''.'' @ signatureEncoded)))"


section \<open>The authenticated endpoint (src/app/api/optimize/route.ts)\<close>

text \<open>
  A \<open>Date\<close> is its time value in milliseconds, \<open>None\<close> for an invalid date.
  \<open>toISOString\<close> prints \<open>YYYY-MM-DDTHH:mm:ss.sssZ\<close> in the proleptic Gregorian
  calendar, the year with a sign and six digits outside \<open>0..9999\<close>.
\<close>

definition TimeClip :: "int \<Rightarrow> int option" where
  "TimeClip t = (if \<bar>t\<bar> \<le> 8640000000000000 then Some t else None)"

definition civil_from_days :: "int \<Rightarrow> int \<times> int \<times> int" where
  "civil_from_days days =
     (let z = days + 719468;
          era = z div 146097;
          doe = z mod 146097;
          yoe = (doe - doe div 1460 + doe div 36524 - doe div 146096) div 365;
          y = yoe + era * 400;
          doy = doe - (365 * yoe + yoe div 4 - yoe div 100);
          mp = (5 * doy + 2) div 153;
          d = doy - (153 * mp + 2) div 5 + 1;
          m = (if mp < 10 then mp + 3 else mp - 9)
      in (if m \<le> 2 then y + 1 else y, m, d))"

fun pad :: "nat \<Rightarrow> nat \<Rightarrow> string" where
  "pad 0 n = []"
| "pad (Suc k) n = pad k (n div 10) @ [decimal_digit (n mod 10)]"

definition year_text :: "int \<Rightarrow> string" where
  "year_text y =
     (if 0 \<le> y \<and> y \<le> 9999 then pad 4 (nat y)
      else (if y < 0 then ''-'' else ''+'') @ pad 6 (nat \<bar>y\<bar>))"

definition Date_toISOString :: "int \<Rightarrow> string" where
  "Date_toISOString t =
     (let days = t div 86400000;
          ms = t mod 86400000
      in case civil_from_days days of
           (y, m, d) \<Rightarrow>
             year_text y @ ''-'' @ pad 2 (nat m) @ ''-'' @ pad 2 (nat d) @ ''T''
             @ pad 2 (nat (ms div 3600000)) @ '':'' @ pad 2 (nat (ms div 60000 mod 60)) @ '':''
             @ pad 2 (nat (ms div 1000 mod 60)) @ ''.'' @ pad 3 (nat (ms mod 1000)) @ ''Z'')"

definition formatTimestamp :: "int option \<Rightarrow> string option" where
  "formatTimestamp date =
     (case date of
        None \<Rightarrow> None
      | Some t \<Rightarrow>
          Some ((case split_on CHR ''.'' (Date_toISOString t) of
                   [] \<Rightarrow> ''undefined''
                 | first # _ \<Rightarrow> first) @ ''Z''))"

record shipment =
  arrivalWaypoint :: "real option latlng"
  duration :: string
  timeWindows :: "(string \<times> string) list"
  label :: string

record vehicle =
  startWaypoint :: "real option latlng"
  endWaypoint :: "real option latlng"
  vehicle_costPerHour :: real
  vehicle_costPerKilometer :: real

record optimization_model =
  shipments :: "shipment list"
  vehicles :: "vehicle list"
  globalStartTime :: string
  globalEndTime :: string

record transition =
  start_latLng :: "real option latlng"
  end_latLng :: "real option latlng"
  travelDistanceMeters :: "real option"
  travelDuration :: "string option"

record raw_route =
  visits :: "visit list option"
  transitions :: "transition list option"
  encodedPolyline :: "string option"

record raw_metrics =
  totalDistance :: "real option"
  totalDuration :: "string option"

record optimize_data =
  routes :: "raw_route list option"
  metrics :: "raw_metrics list option"

datatype optimize_reply = Optimize_throws | Optimize_not_ok nat | Optimize_ok optimize_data

datatype net_call =
    Token_call string
  | Optimize_call string string optimization_model

record world = signer_world +
  Date_start :: int
  Date_parse :: "string \<Rightarrow> int option"
  token_endpoint :: "string \<Rightarrow> token_reply"
  optimize_endpoint :: "string \<Rightarrow> string \<Rightarrow> optimization_model \<Rightarrow> optimize_reply"
  parseInt :: "string \<Rightarrow> real option"

definition getGoogleCloudProjectId :: "env \<Rightarrow> string option" where
  "getGoogleCloudProjectId e =
     (if falsy_string (GOOGLE_CLOUD_PROJECT_ID e) then None else GOOGLE_CLOUD_PROJECT_ID e)"

definition getServiceAccountCredentials :: "env \<Rightarrow> service_account option" where
  "getServiceAccountCredentials e =
     (case GOOGLE_SERVICE_ACCOUNT_CREDENTIALS e of
        None \<Rightarrow> None
      | Some Unparsable \<Rightarrow> None
      | Some (Parsed email key) \<Rightarrow>
          (case (email, key) of
             (Some email', Some key') \<Rightarrow>
               if email' = [] \<or> key' = [] then None
               else Some \<lparr>client_email = email', private_key = key'\<rparr>
           | _ \<Rightarrow> None))"

definition getGoogleCloudAccessToken :: "world \<Rightarrow> env \<Rightarrow> string option option \<times> net_call list" where
  "getGoogleCloudAccessToken w e =
     (case getServiceAccountCredentials e of
        None \<Rightarrow> (None, [])
      | Some serviceAccount \<Rightarrow>
          (let scope = ''https://www.googleapis.com/auth/cloud-platform'' in
           case createJWT w serviceAccount scope of
             None \<Rightarrow> (None, [])
           | Some jwt \<Rightarrow>
               (case token_endpoint w jwt of
                  Token_throws \<Rightarrow> (None, [Token_call jwt])
                | Token_not_ok \<Rightarrow> (None, [Token_call jwt])
                | Token_ok access_token \<Rightarrow> (Some access_token, [Token_call jwt]))))"

definition getRouteOptimizationUrl :: "string \<Rightarrow> string" where
  "getRouteOptimizationUrl projectId =
     ''https://routeoptimization.googleapis.com/v1'' @ ''/projects/'' @ projectId @ '':optimizeTours''"

definition request_startDate :: "world \<Rightarrow> optimize_request \<Rightarrow> int option" where
  "request_startDate w body =
     (if falsy_string (requestStartTime body) then TimeClip (Date_start w)
      else Option.bind (Option.bind (requestStartTime body) (Date_parse w)) TimeClip)"

definition request_endDate :: "world \<Rightarrow> optimize_request \<Rightarrow> int option" where
  "request_endDate w body =
     (case request_startDate w body of
        None \<Rightarrow> None
      | Some t \<Rightarrow> TimeClip (t + timeWindowHours ROUTE_OPTIMIZATION_CONFIG * 60 * 60 * 1000))"

definition optimizationPayload ::
  "delivery list \<Rightarrow> real option latlng \<Rightarrow> string \<Rightarrow> string \<Rightarrow> optimization_model" where
  "optimizationPayload ds warehouse startTime' endTime' =
     \<lparr>shipments =
        map (\<lambda>(index, delivery).
               \<lparr>arrivalWaypoint = \<lparr>lat = lat delivery, lng = lng delivery\<rparr>,
                duration =
                  Number_toString (int (durationPerDelivery ROUTE_OPTIMIZATION_CONFIG)) @ ''s'',
                timeWindows = [(startTime', endTime')],
                label =
                  (if codigo delivery = [] then ''Entrega-'' @ Number_toString (int index + 1)
                   else codigo delivery)\<rparr>)
            (enumerate 0 ds),
      vehicles =
        [\<lparr>startWaypoint = \<lparr>lat = lat warehouse, lng = lng warehouse\<rparr>,
          endWaypoint = \<lparr>lat = lat warehouse, lng = lng warehouse\<rparr>,
          vehicle_costPerHour = costPerHour ROUTE_OPTIMIZATION_CONFIG,
          vehicle_costPerKilometer = costPerKilometer ROUTE_OPTIMIZATION_CONFIG\<rparr>],
      globalStartTime = startTime',
      globalEndTime = endTime'\<rparr>"

fun replace_first :: "char \<Rightarrow> string \<Rightarrow> string" where
  "replace_first c [] = []"
| "replace_first c (x # xs) = (if x = c then xs else x # replace_first c xs)"

definition parse_duration :: "world \<Rightarrow> string option \<Rightarrow> real option" where
  "parse_duration w d =
     (if falsy_string d then Some 0
      else Option.bind d (\<lambda>s. parseInt w (replace_first CHR ''s'' s)))"

definition or_zero :: "real option \<Rightarrow> real" where
  "or_zero x = (if falsy_number x then 0 else case x of None \<Rightarrow> 0 | Some v \<Rightarrow> v)"

definition mapResponse :: "world \<Rightarrow> delivery list \<Rightarrow> optimize_data \<Rightarrow> raw_route \<Rightarrow> optimized_route" where
  "mapResponse w ds data route' =
     (let metrics = (case metrics data of None \<Rightarrow> None | Some [] \<Rightarrow> None | Some (m # _) \<Rightarrow> Some m);
          visits = (case visits route' of None \<Rightarrow> [] | Some vs \<Rightarrow> vs);
          optimizedDeliveries = mapVisits ds visits;
          totalDistanceMeters = or_zero (Option.bind metrics totalDistance);
          totalDurationSeconds = parse_duration w (Option.bind metrics totalDuration);
          estimatedCost =
            finite_value (calculateRouteCost (Num totalDistanceMeters) (to_double totalDurationSeconds))
      in \<lparr>optimizedDeliveries = optimizedDeliveries,
          totalDistanceMeters = totalDistanceMeters,
          totalDurationSeconds = totalDurationSeconds,
          estimatedCost = estimatedCost,
          route =
            Some \<lparr>polyline = encodedPolyline route',
                  legs =
                    map_option
                      (map (\<lambda>transition.
                         \<lparr>startLocation =
                            \<lparr>lat = or_zero (lat (start_latLng transition)),
                             lng = or_zero (lng (start_latLng transition))\<rparr>,
                          endLocation =
                            \<lparr>lat = or_zero (lat (end_latLng transition)),
                             lng = or_zero (lng (end_latLng transition))\<rparr>,
                          distanceMeters = or_zero (travelDistanceMeters transition),
                          durationSeconds = parse_duration w (travelDuration transition)\<rparr>))
                      (transitions route')\<rparr>\<rparr>)"

definition POST_optimize :: "world \<Rightarrow> env \<Rightarrow> optimize_request option \<Rightarrow> response \<times> net_call list" where
  "POST_optimize w e request =
     (case getGoogleCloudProjectId e of
        None \<Rightarrow> (Error_response 500 InternalError, [])
      | Some projectId \<Rightarrow>
         (case getGoogleCloudAccessToken w e of
            (None, calls) \<Rightarrow> (Error_response 500 InternalError, calls)
          | (Some accessToken, calls) \<Rightarrow>
             (case request of
                None \<Rightarrow> (Error_response 500 InternalError, calls)
              | Some body \<Rightarrow>
                 (case deliveries body of
                    NoDeliveries \<Rightarrow> (Error_response 400 DeliveriesRequired, calls)
                  | NotAnArray \<Rightarrow> (Error_response 400 DeliveriesRequired, calls)
                  | Deliveries ds \<Rightarrow>
                     if length ds = 0 then (Error_response 400 DeliveriesEmpty, calls)
                     else
                       (let deliveriesWithoutCoords =
                              filter (\<lambda>d. falsy_number (lat d) \<or> falsy_number (lng d)) ds
                        in if length deliveriesWithoutCoords > 0
                           then (Error_response 400 (MissingCoordinates (length deliveriesWithoutCoords)), calls)
                           else
                             (case warehouseLocation body of
                                None \<Rightarrow> (Error_response 400 WarehouseRequired, calls)
                              | Some warehouse \<Rightarrow>
                                 if falsy_number (lat warehouse) \<or> falsy_number (lng warehouse)
                                 then (Error_response 400 WarehouseRequired, calls)
                                 else
                                   (case formatTimestamp (request_startDate w body) of
                                      None \<Rightarrow> (Error_response 500 InternalError, calls)
                                    | Some startTime' \<Rightarrow>
                                       (case formatTimestamp (request_endDate w body) of
                                          None \<Rightarrow> (Error_response 500 InternalError, calls)
                                        | Some endTime' \<Rightarrow>
                                           (let payload = optimizationPayload ds warehouse startTime' endTime';
                                                url = getRouteOptimizationUrl projectId;
                                                authorization =
                                                  ''Bearer '' @ (case accessToken of
                                                                    None \<Rightarrow> ''undefined''
                                                                  | Some t \<Rightarrow> t);
                                                calls = calls @ [Optimize_call url authorization payload]
                                            in case optimize_endpoint w url authorization payload of
                                                 Optimize_throws \<Rightarrow> (Error_response 500 InternalError, calls)
                                               | Optimize_not_ok status \<Rightarrow>
                                                   (Error_response status UpstreamError, calls)
                                               | Optimize_ok data \<Rightarrow>
                                                   (case routes data of
                                                      None \<Rightarrow> (Error_response 500 NoRouteFound, calls)
                                                    | Some [] \<Rightarrow> (Error_response 500 NoRouteFound, calls)
                                                    | Some (route' # _) \<Rightarrow>
                                                        (Route_response (mapResponse w ds data route'),
                                                         calls)))))))))))"

text \<open>What the handler does once the request has passed every validation.\<close>

definition optimize_call_of ::
  "world \<Rightarrow> string \<Rightarrow> string option \<Rightarrow> optimize_request \<Rightarrow> delivery list \<Rightarrow> real option latlng
     \<Rightarrow> net_call option" where
  "optimize_call_of w projectId accessToken body ds warehouse =
     (case formatTimestamp (request_startDate w body) of
        None \<Rightarrow> None
      | Some startTime' \<Rightarrow>
          (case formatTimestamp (request_endDate w body) of
             None \<Rightarrow> None
           | Some endTime' \<Rightarrow>
               Some (Optimize_call (getRouteOptimizationUrl projectId)
                       (''Bearer '' @ (case accessToken of None \<Rightarrow> ''undefined'' | Some t \<Rightarrow> t))
                       (optimizationPayload ds warehouse startTime' endTime'))))"


section \<open>The nearest-neighbour endpoint (src/app/api/optimize-simple/route.ts)\<close>

text \<open>
  First on exact numbers: a number is a real, the trigonometric functions are the
  exact ones, and a result that the source would compute as \<open>NaN\<close> or \<open>Infinity\<close>
  is \<open>None\<close>. It is used for two inputs on which rounding has no influence on
  what is stated: equal coordinates, where every difference is exactly zero, and two
  stops on the equator of which one is twice as far as the other. The section after
  this one reads the same lines in double precision.
\<close>

text \<open>\<open>Math.round\<close>: the nearest integer, a tie going up.\<close>

definition Math_round :: "real \<Rightarrow> int" where
  "Math_round x = \<lfloor>x + 1 / 2\<rfloor>"

text \<open>\<open>Math.atan2(y, x)\<close> on finite arguments.\<close>

definition Math_atan2 :: "real \<Rightarrow> real \<Rightarrow> real" where
  "Math_atan2 y x =
     (if 0 < x then arctan (y / x)
      else if x < 0 then (if 0 \<le> y then arctan (y / x) + pi else arctan (y / x) - pi)
      else if 0 < y then pi / 2
      else if y < 0 then - (pi / 2)
      else 0)"

definition calculateDistance :: "location \<Rightarrow> location \<Rightarrow> real" where
  "calculateDistance from to =
     (let R = 6371000;
          lat1 = (lat from * pi) / 180;
          lat2 = (lat to * pi) / 180;
          deltaLat = ((lat to - lat from) * pi) / 180;
          deltaLng = ((lng to - lng from) * pi) / 180;
          a = sin (deltaLat / 2) * sin (deltaLat / 2) +
              cos lat1 * cos lat2 * sin (deltaLng / 2) * sin (deltaLng / 2);
          c = 2 * Math_atan2 (sqrt a) (sqrt (1 - a))
      in R * c)"

text \<open>
  \<open>{lat: delivery.lat!, lng: delivery.lng!}\<close>: a location when both coordinates are
  there. Without them the arithmetic of the source yields \<open>NaN\<close>, which is \<open>None\<close>.
\<close>

definition coords :: "(real option, 'a) latlng_scheme \<Rightarrow> location option" where
  "coords d =
     (case (lat d, lng d) of
        (Some la, Some lo) \<Rightarrow> Some \<lparr>lat = la, lng = lo\<rparr>
      | _ \<Rightarrow> None)"

text \<open>
  \<open>distance < nearestDistance\<close>, where \<open>nearestDistance\<close> starts as \<open>Infinity\<close>
  (\<open>None\<close>) and is a finite distance afterwards.
\<close>

definition less_than :: "real \<Rightarrow> real option \<Rightarrow> bool" where
  "less_than distance nearestDistance =
     (case nearestDistance of None \<Rightarrow> True | Some m \<Rightarrow> distance < m)"

text \<open>
  The inner \<open>for\<close> loop (lines 83-94), from index \<open>i\<close> on, over what is left of
  \<open>unvisited\<close>. A \<open>NaN\<close> distance compares false and changes nothing.
\<close>

fun nearest_scan ::
  "location \<Rightarrow> delivery list \<Rightarrow> nat \<Rightarrow> nat \<times> real option \<Rightarrow> nat \<times> real option" where
  "nearest_scan current [] i best = best"
| "nearest_scan current (delivery # rest) i (nearestIndex, nearestDistance) =
     nearest_scan current rest (i + 1)
       (case coords delivery of
          None \<Rightarrow> (nearestIndex, nearestDistance)
        | Some p \<Rightarrow>
            (let distance = calculateDistance current p in
             if less_than distance nearestDistance then (i, Some distance)
             else (nearestIndex, nearestDistance)))"

text \<open>\<open>xs.splice(i, 1)\<close>: the array without its element at index \<open>i\<close>.\<close>

definition splice1 :: "'a list \<Rightarrow> nat \<Rightarrow> 'a list" where
  "splice1 xs i = take i xs @ drop (Suc i) xs"

record nn_state =
  currentLocation :: location
  unvisited :: "delivery list"
  optimized :: "optimized_delivery list"
  totalDistance :: real

text \<open>
  The body of the \<open>while\<close> loop (lines 79-106). The result is \<open>None\<close> where the
  source would go on with \<open>Infinity\<close> or \<open>NaN\<close>: no finite distance was found, or
  the chosen delivery has no coordinates.
\<close>

definition nn_body :: "nn_state \<Rightarrow> nn_state option" where
  "nn_body s =
     (case nearest_scan (currentLocation s) (unvisited s) 0 (0, None) of
        (nearestIndex, None) \<Rightarrow> None
      | (nearestIndex, Some nearestDistance) \<Rightarrow>
          (if nearestIndex < length (unvisited s) then
             (let nextDelivery = unvisited s ! nearestIndex in
              case coords nextDelivery of
                None \<Rightarrow> None
              | Some p \<Rightarrow>
                  Some \<lparr>currentLocation = p,
                        unvisited = splice1 (unvisited s) nearestIndex,
                        optimized = optimized s @
                          [\<lparr>original = Some nextDelivery,
                            orderIndex = length (optimized s) + 1,
                            estimatedArrival = None,
                            distanceFromPrevious = Some (Math_round nearestDistance)\<rparr>],
                        totalDistance = totalDistance s + nearestDistance\<rparr>)
           else None))"

function nn_loop :: "nn_state \<Rightarrow> nn_state option" where
  "nn_loop s =
     (if length (unvisited s) > 0 then
        (case nn_body s of None \<Rightarrow> None | Some s' \<Rightarrow> nn_loop s')
      else Some s)"
  by pat_completeness auto
termination
proof (relation "measure (\<lambda>s. length (unvisited s))")
  show "wf (measure (\<lambda>s. length (unvisited s)))"
    by simp
next
  fix s s' :: nn_state
  assume "0 < length (unvisited s)" and "nn_body s = Some s'"
  then have "length (unvisited s') < length (unvisited s)"
    by (auto simp: nn_body_def splice1_def Let_def split: prod.splits option.splits if_splits)
  then show "(s', s) \<in> measure (\<lambda>s. length (unvisited s))"
    by simp
qed

declare nn_loop.simps [simp del]

text \<open>
  Lines 109-133, after the loop: the return leg, the duration at 30 km/h plus 300
  seconds for each delivery, the cost, and the route that is answered.
\<close>

definition nn_route :: "location \<Rightarrow> nn_state \<Rightarrow> optimized_route" where
  "nn_route warehouse s =
     (let returnDistance = calculateDistance (currentLocation s) warehouse;
          totalDistance = totalDistance s + returnDistance;
          travelTimeSeconds = (totalDistance / 1000 / 30) * 3600;
          deliveryTimeSeconds = real (length (optimized s) * 300);
          totalDurationSeconds = Math_round (travelTimeSeconds + deliveryTimeSeconds);
          estimatedCost =
            calculateRouteCost (Num totalDistance) (Num (of_int totalDurationSeconds))
      in \<lparr>optimizedDeliveries = optimized s,
          totalDistanceMeters = of_int (Math_round totalDistance),
          totalDurationSeconds = Some (of_int totalDurationSeconds),
          estimatedCost = finite_value estimatedCost,
          route = None\<rparr>)"

text \<open>
  \<open>POST\<close> of the nearest-neighbour endpoint. \<open>request\<close> is what \<open>request.json()\<close>
  yields, \<open>None\<close> when it throws; every exception ends in the \<open>catch\<close> with status
  500. The handler has no \<open>fetch\<close>, so its log of network calls is empty. The answer
  is \<open>None\<close> where the source would answer with \<open>NaN\<close> or \<open>Infinity\<close>.
\<close>

definition POST_optimize_simple :: "env \<Rightarrow> optimize_request option \<Rightarrow> response option \<times> net_call list" where
  "POST_optimize_simple e request =
     (if falsy_string (GOOGLE_MAPS_API_KEY e) then (Some (Error_response 500 InternalError), [])
      else case request of
        None \<Rightarrow> (Some (Error_response 500 InternalError), [])
      | Some body \<Rightarrow>
         (case deliveries body of
            NoDeliveries \<Rightarrow> (Some (Error_response 400 DeliveriesRequiredNonEmpty), [])
          | NotAnArray \<Rightarrow> (Some (Error_response 400 DeliveriesRequiredNonEmpty), [])
          | Deliveries ds \<Rightarrow>
             if length ds = 0 then (Some (Error_response 400 DeliveriesRequiredNonEmpty), [])
             else
               (let deliveriesWithoutCoords =
                      filter (\<lambda>d. falsy_number (lat d) \<or> falsy_number (lng d)) ds
                in if length deliveriesWithoutCoords > 0
                   then (Some (Error_response 400 (MissingCoordinates (length deliveriesWithoutCoords))), [])
                   else if (case warehouseLocation body of
                              None \<Rightarrow> True
                            | Some w \<Rightarrow> falsy_number (lat w) \<or> falsy_number (lng w))
                   then (Some (Error_response 400 WarehouseRequired), [])
                   else
                     (case Option.bind (warehouseLocation body) coords of
                        None \<Rightarrow> (None, [])
                      | Some warehouse \<Rightarrow>
                         (case nn_loop \<lparr>currentLocation = warehouse, unvisited = ds,
                                         optimized = [], totalDistance = 0\<rparr> of
                            None \<Rightarrow> (None, [])
                          | Some s \<Rightarrow> (Some (Route_response (nn_route warehouse s)), []))))))"


section \<open>The nearest-neighbour endpoint in double precision\<close>

text \<open>
  The same lines of src/app/api/optimize-simple/route.ts with their numbers read as
  doubles: every operation rounds, and \<open>NaN\<close> and \<open>Infinity\<close> go on through the
  loop as they do in the source. A coordinate that is absent is \<open>undefined\<close>, which
  is \<open>NaN\<close> in arithmetic.
\<close>

definition calculateDistance_double :: "libm \<Rightarrow> double latlng \<Rightarrow> double latlng \<Rightarrow> double" where
  "calculateDistance_double lib from to =
     (let R = Num 6371000;
          lat1 = double_div (double_mul (lat from) Math_PI) 180;
          lat2 = double_div (double_mul (lat to) Math_PI) 180;
          deltaLat = double_div (double_mul (double_sub (lat to) (lat from)) Math_PI) 180;
          deltaLng = double_div (double_mul (double_sub (lng to) (lng from)) Math_PI) 180;
          a = double_add
                (double_mul (Math_sin_double lib (double_div deltaLat 2))
                            (Math_sin_double lib (double_div deltaLat 2)))
                (double_mul
                   (double_mul
                      (double_mul (Math_cos_double lib lat1) (Math_cos_double lib lat2))
                      (Math_sin_double lib (double_div deltaLng 2)))
                   (Math_sin_double lib (double_div deltaLng 2)));
          c = double_mul (Num 2)
                (Math_atan2_double lib (Math_sqrt_double lib a)
                   (Math_sqrt_double lib (double_sub (Num 1) a)))
      in double_mul R c)"

text \<open>\<open>{lat: delivery.lat!, lng: delivery.lng!}\<close>.\<close>

definition coords_double :: "(real option, 'a) latlng_scheme \<Rightarrow> double latlng" where
  "coords_double d = \<lparr>lat = to_double (lat d), lng = to_double (lng d)\<rparr>"

text \<open>The inner \<open>for\<close> loop (lines 83-94), from index \<open>i\<close> on.\<close>

fun nearest_scan_double ::
  "libm \<Rightarrow> double latlng \<Rightarrow> delivery list \<Rightarrow> nat \<Rightarrow> nat \<times> double \<Rightarrow> nat \<times> double" where
  "nearest_scan_double lib current [] i best = best"
| "nearest_scan_double lib current (delivery # rest) i (nearestIndex, nearestDistance) =
     nearest_scan_double lib current rest (i + 1)
       (let distance = calculateDistance_double lib current (coords_double delivery) in
        if double_less distance nearestDistance then (i, distance)
        else (nearestIndex, nearestDistance))"

record double_delivery =
  original_d :: delivery
  orderIndex_d :: nat
  distanceFromPrevious_d :: double

record double_state =
  currentLocation_d :: "double latlng"
  unvisited_d :: "delivery list"
  optimized_d :: "double_delivery list"
  totalDistance_d :: double

text \<open>
  The body of the \<open>while\<close> loop (lines 79-106). \<open>nearestIndex\<close> is an index of
  \<open>unvisited\<close> (lemma \<open>nearest_scan_double_index\<close>); outside the array
  \<open>nextDelivery\<close> would be \<open>undefined\<close> and \<open>nextDelivery.lat\<close> would throw, which
  is \<open>None\<close>.
\<close>

definition nn_body_double :: "libm \<Rightarrow> double_state \<Rightarrow> double_state option" where
  "nn_body_double lib s =
     (case nearest_scan_double lib (currentLocation_d s) (unvisited_d s) 0 (0, PosInf) of
        (nearestIndex, nearestDistance) \<Rightarrow>
          (if nearestIndex < length (unvisited_d s) then
             (let nextDelivery = unvisited_d s ! nearestIndex in
              Some \<lparr>currentLocation_d = coords_double nextDelivery,
                    unvisited_d = splice1 (unvisited_d s) nearestIndex,
                    optimized_d = optimized_d s @
                      [\<lparr>original_d = nextDelivery,
                        orderIndex_d = length (optimized_d s) + 1,
                        distanceFromPrevious_d = Math_round_double nearestDistance\<rparr>],
                    totalDistance_d = double_add (totalDistance_d s) nearestDistance\<rparr>)
           else None))"

function nn_loop_double :: "libm \<Rightarrow> double_state \<Rightarrow> double_state option" where
  "nn_loop_double lib s =
     (if length (unvisited_d s) > 0 then
        (case nn_body_double lib s of None \<Rightarrow> None | Some s' \<Rightarrow> nn_loop_double lib s')
      else Some s)"
  by pat_completeness auto
termination
proof (relation "measure (\<lambda>(lib, s). length (unvisited_d s))")
  show "wf (measure (\<lambda>(lib, s). length (unvisited_d s)))"
    by simp
next
  fix lib :: libm and s s' :: double_state
  assume "0 < length (unvisited_d s)" and "nn_body_double lib s = Some s'"
  then have "length (unvisited_d s') < length (unvisited_d s)"
    by (auto simp: nn_body_double_def splice1_def Let_def split: prod.splits if_splits)
  then show "((lib, s'), (lib, s)) \<in> measure (\<lambda>(lib, s). length (unvisited_d s))"
    by simp
qed

declare nn_loop_double.simps [simp del]

text \<open>The states at the head of the loop: the first one, and each one the body leaves.\<close>

inductive nn_reachable_double :: "libm \<Rightarrow> double_state \<Rightarrow> double_state \<Rightarrow> bool"
  for lib :: libm and s0 :: double_state where
  start: "nn_reachable_double lib s0 s0"
| iterate: "nn_reachable_double lib s0 s \<Longrightarrow> 0 < length (unvisited_d s)
              \<Longrightarrow> nn_body_double lib s = Some s' \<Longrightarrow> nn_reachable_double lib s0 s'"

record double_route =
  optimizedDeliveries_d :: "double_delivery list"
  totalDistanceMeters_d :: double
  totalDurationSeconds_d :: double
  estimatedCost_d :: double

datatype double_response = Error_double nat api_error | Route_double double_route

text \<open>Lines 109-133, after the loop.\<close>

definition nn_route_double :: "libm \<Rightarrow> double latlng \<Rightarrow> double_state \<Rightarrow> double_route" where
  "nn_route_double lib warehouse s =
     (let returnDistance = calculateDistance_double lib (currentLocation_d s) warehouse;
          totalDistance = double_add (totalDistance_d s) returnDistance;
          travelTimeSeconds =
            double_mul (double_div (double_div totalDistance 1000) 30) (Num 3600);
          deliveryTimeSeconds = double_mul (Num (real (length (optimized_d s)))) (Num 300);
          totalDurationSeconds =
            Math_round_double (double_add travelTimeSeconds deliveryTimeSeconds);
          estimatedCost = calculateRouteCost totalDistance totalDurationSeconds
      in \<lparr>optimizedDeliveries_d = optimized_d s,
          totalDistanceMeters_d = Math_round_double totalDistance,
          totalDurationSeconds_d = totalDurationSeconds,
          estimatedCost_d = estimatedCost\<rparr>)"

text \<open>
  \<open>POST\<close> of the nearest-neighbour endpoint, with the same validations as
  \<open>POST_optimize_simple\<close>; the coordinates of the request are finite doubles.
\<close>

definition POST_optimize_simple_double ::
  "libm \<Rightarrow> env \<Rightarrow> optimize_request option \<Rightarrow> double_response \<times> net_call list" where
  "POST_optimize_simple_double lib e request =
     (if falsy_string (GOOGLE_MAPS_API_KEY e) then (Error_double 500 InternalError, [])
      else case request of
        None \<Rightarrow> (Error_double 500 InternalError, [])
      | Some body \<Rightarrow>
         (case deliveries body of
            NoDeliveries \<Rightarrow> (Error_double 400 DeliveriesRequiredNonEmpty, [])
          | NotAnArray \<Rightarrow> (Error_double 400 DeliveriesRequiredNonEmpty, [])
          | Deliveries ds \<Rightarrow>
             if length ds = 0 then (Error_double 400 DeliveriesRequiredNonEmpty, [])
             else
               (let deliveriesWithoutCoords =
                      filter (\<lambda>d. falsy_number (lat d) \<or> falsy_number (lng d)) ds
                in if length deliveriesWithoutCoords > 0
                   then (Error_double 400 (MissingCoordinates (length deliveriesWithoutCoords)), [])
                   else
                     (case warehouseLocation body of
                        None \<Rightarrow> (Error_double 400 WarehouseRequired, [])
                      | Some w \<Rightarrow>
                         if falsy_number (lat w) \<or> falsy_number (lng w)
                         then (Error_double 400 WarehouseRequired, [])
                         else
                           (case nn_loop_double lib
                                   \<lparr>currentLocation_d = coords_double w, unvisited_d = ds,
                                    optimized_d = [], totalDistance_d = Num 0\<rparr> of
                              None \<Rightarrow> (Error_double 500 InternalError, [])
                            | Some s \<Rightarrow>
                                (Route_double (nn_route_double lib (coords_double w) s), []))))))"

text \<open>
  A library to run the model on: it returns the double nearest to the exact result
  (for \<open>atan2\<close> with an infinite argument, to the multiple of \<open>\<pi> / 4\<close> that
  ECMAScript names).
\<close>

definition rounding_libm :: libm where
  "rounding_libm =
     \<lparr>sin_finite = (\<lambda>a. fl (sin a)),
      cos_finite = (\<lambda>a. fl (cos a)),
      sqrt_finite = (\<lambda>a. fl (sqrt a)),
      atan2_other =
        (\<lambda>y x. fl (case (y, x) of
                     (Num b, Num a) \<Rightarrow> Math_atan2 b a
                   | (Num b, PosInf) \<Rightarrow> 0
                   | (Num b, NegInf) \<Rightarrow> if 0 \<le> b then pi else - pi
                   | (PosInf, PosInf) \<Rightarrow> pi / 4
                   | (PosInf, NegInf) \<Rightarrow> 3 * pi / 4
                   | (PosInf, _) \<Rightarrow> pi / 2
                   | (NegInf, PosInf) \<Rightarrow> - (pi / 4)
                   | (NegInf, NegInf) \<Rightarrow> - (3 * pi / 4)
                   | (NegInf, _) \<Rightarrow> - (pi / 2)
                   | _ \<Rightarrow> 0))\<rparr>"


text \<open>The text \<open>YYYY-MM-DDTHH:mm:ssZ\<close> of a whole number of seconds since the epoch.\<close>

definition whole_second_timestamp :: "int \<Rightarrow> string" where
  "whole_second_timestamp s =
     (let days = s div 86400;
          secs = s mod 86400
      in case civil_from_days days of
           (y, m, d) \<Rightarrow>
             year_text y @ ''-'' @ pad 2 (nat m) @ ''-'' @ pad 2 (nat d) @ ''T''
             @ pad 2 (nat (secs div 3600)) @ '':'' @ pad 2 (nat (secs div 60 mod 60)) @ '':''
             @ pad 2 (nat (secs mod 60)) @ ''Z'')"


text \<open>A world, and two environments, to run the endpoints on.\<close>

definition example_world :: world where
  "example_world =
     \<lparr>Date_now = 1705312799000,
      rsa_sha256_sign = (\<lambda>key data. Some ''signature''),
      Date_start = 1705312800123,
      Date_parse = (\<lambda>s. None),
      token_endpoint = (\<lambda>jwt. Token_ok (Some ''token'')),
      optimize_endpoint = (\<lambda>url authorization payload. Optimize_not_ok 503),
      parseInt = (\<lambda>s. None)\<rparr>"

definition example_env :: env where
  "example_env =
     \<lparr>GOOGLE_MAPS_API_KEY = Some ''key'',
      GOOGLE_CLOUD_PROJECT_ID = Some ''project'',
      GOOGLE_SERVICE_ACCOUNT_CREDENTIALS =
        Some (Parsed (Some ''robot@example.iam.gserviceaccount.com'') (Some ''PEM''))\<rparr>"

definition unconfigured_env :: env where
  "unconfigured_env =
     \<lparr>GOOGLE_MAPS_API_KEY = None, GOOGLE_CLOUD_PROJECT_ID = None,
      GOOGLE_SERVICE_ACCOUNT_CREDENTIALS = None\<rparr>"

definition example_account :: service_account where
  "example_account =
     \<lparr>client_email = ''robot@example.iam.gserviceaccount.com'', private_key = ''PEM''\<rparr>"


section \<open>What the claims speak of\<close>

text \<open>
  What the inner loop of the double-precision model has found in \<open>xs\<close>. A computed
  distance counts when it compares below \<open>Infinity\<close> (it is a number, not \<open>NaN\<close>).
  Either no distance counts, and the loop is left with index 0 and \<open>Infinity\<close>; or
  the loop is left with an index and its computed distance, which counts, no computed
  distance is below it, and it is strictly below every distance that counts at an
  earlier index.
\<close>

definition nearest_found :: "libm \<Rightarrow> double latlng \<Rightarrow> delivery list \<Rightarrow> nat \<times> double \<Rightarrow> bool" where
  "nearest_found lib current xs best =
     (case best of
        (nearestIndex, nearestDistance) \<Rightarrow>
          (nearestDistance = PosInf \<and> nearestIndex = 0
           \<and> (\<forall>j < length xs.
                 \<not> double_less (calculateDistance_double lib current (coords_double (xs ! j))) PosInf))
          \<or> (nearestIndex < length xs
              \<and> nearestDistance =
                  calculateDistance_double lib current (coords_double (xs ! nearestIndex))
              \<and> double_less nearestDistance PosInf
              \<and> (\<forall>j < length xs.
                    \<not> double_less (calculateDistance_double lib current (coords_double (xs ! j)))
                        nearestDistance)
              \<and> (\<forall>j < nearestIndex.
                    double_less (calculateDistance_double lib current (coords_double (xs ! j))) PosInf
                    \<longrightarrow> double_less nearestDistance
                          (calculateDistance_double lib current (coords_double (xs ! j))))))"

text \<open>
  The distances found along a tour from a start through a list of places: each one is
  the computed distance of its leg, which then counts, or \<open>Infinity\<close>.
\<close>

fun found_legs :: "libm \<Rightarrow> double latlng \<Rightarrow> double latlng list \<Rightarrow> double list \<Rightarrow> bool" where
  "found_legs lib current [] [] = True"
| "found_legs lib current (p # ps) (f # fs) =
     ((f = PosInf \<or> (f = calculateDistance_double lib current p \<and> double_less f PosInf))
      \<and> found_legs lib p ps fs)"
| "found_legs lib current _ _ = False"


text \<open>
  The haversine formula as it is usually given: the half-versed sine of the central
  angle is \<open>hav \<Delta>\<phi> + cos \<phi>1 cos \<phi>2 hav \<Delta>\<lambda>\<close>, and the distance on a sphere of radius
  \<open>R\<close> is \<open>2 R arcsin\<close> of its root. Angles are degrees in the records.
\<close>

definition hav :: "real \<Rightarrow> real" where
  "hav \<theta> = (sin (\<theta> / 2))\<^sup>2"

definition haversine_distance :: "real \<Rightarrow> location \<Rightarrow> location \<Rightarrow> real" where
  "haversine_distance R from to =
     (let p1 = lat from * pi / 180; p2 = lat to * pi / 180;
          l1 = lng from * pi / 180; l2 = lng to * pi / 180
      in 2 * R * arcsin (sqrt (hav (p2 - p1) + cos p1 * cos p2 * hav (l2 - l1))))"


text \<open>
  Rounding a number that is not negative to two decimals, half up: the result is
  \<open>n / 100\<close> for an integer \<open>n\<close>, no other such number is nearer, and of two that are
  equally near it is the larger.
\<close>

definition half_up_2dp :: "real \<Rightarrow> real \<Rightarrow> bool" where
  "half_up_2dp x r =
     (\<exists>n::int. r = of_int n / 100
        \<and> (\<forall>m::int. \<bar>of_int n / 100 - x\<bar> \<le> \<bar>of_int m / 100 - x\<bar>)
        \<and> (\<forall>m::int. \<bar>of_int m / 100 - x\<bar> = \<bar>of_int n / 100 - x\<bar> \<longrightarrow> m \<le> n))"


section \<open>Properties of the visit mapping\<close>








section \<open>Removing an element of a list\<close>

lemma mset_splice1:
  "i < length xs \<Longrightarrow> mset xs = add_mset (xs ! i) (mset (splice1 xs i))"
proof -
  assume "i < length xs"
  then have "xs = take i xs @ xs ! i # drop (Suc i) xs"
    by (rule id_take_nth_drop)
  then have "mset xs = mset (take i xs @ xs ! i # drop (Suc i) xs)"
    by simp
  then show ?thesis
    by (simp add: splice1_def)
qed

lemma set_splice1: "set (splice1 xs i) \<subseteq> set xs"
  by (auto simp: splice1_def dest: in_set_takeD in_set_dropD)

lemma length_splice1: "i < length xs \<Longrightarrow> length (splice1 xs i) = length xs - 1"
  by (auto simp: splice1_def)

lemma subseq_splice1: "subseq (splice1 xs i) xs"
proof (cases "i < length xs")
  case True
  have "subseq (take i xs @ drop (Suc i) xs) (take i xs @ xs ! i # drop (Suc i) xs)"
    by (simp add: subseq_append' list_emb_Cons)
  also have "take i xs @ xs ! i # drop (Suc i) xs = xs"
    using True by (rule id_take_nth_drop [symmetric])
  finally show ?thesis
    by (simp add: splice1_def)
next
  case False
  then show ?thesis
    by (simp add: splice1_def)
qed

section \<open>The nearest-neighbour endpoint on exact numbers\<close>

lemma stop_at_coords: "lat (stop_at c a b) = Some a" "lng (stop_at c a b) = Some b"
  by (simp_all add: stop_at_def)

lemma calculateDistance_same: "calculateDistance p p = 0"
  by (simp add: calculateDistance_def Math_atan2_def)



subsection \<open>The distance is the haversine distance\<close>

lemma hav_law_bounds:
  fixes p1 p2 dl :: real
  defines "a \<equiv> (sin ((p2 - p1) / 2))\<^sup>2 + cos p1 * cos p2 * (sin (dl / 2))\<^sup>2"
  shows "0 \<le> a" and "a \<le> 1"
proof -
  define u where "u = cos (p2 - p1)"
  define v where "v = cos (p1 + p2)"
  define w where "w = (sin (dl / 2))\<^sup>2"
  have w: "0 \<le> w" "w \<le> 1"
    using sin_cos_squared_add [of "dl / 2"] zero_le_power2 [of "cos (dl / 2)"]
      zero_le_power2 [of "sin (dl / 2)"]
    unfolding w_def by linarith+
  have u: "- 1 \<le> u" "u \<le> 1" and v: "- 1 \<le> v" "v \<le> 1"
    by (simp_all add: u_def v_def)
  have s: "(sin ((p2 - p1) / 2))\<^sup>2 = (1 - u) / 2"
  proof -
    have "2 * ((p2 - p1) / 2) = p2 - p1"
      by simp
    then have "cos (p2 - p1) = 1 - 2 * (sin ((p2 - p1) / 2))\<^sup>2"
      using cos_double_sin [of "(p2 - p1) / 2"] by (simp only:)
    then show ?thesis
      by (simp add: u_def)
  qed
  have c: "cos p1 * cos p2 = (u + v) / 2"
    unfolding u_def v_def by (simp add: cos_add cos_diff)
  have a: "a = (1 - (u * (1 - w) - v * w)) / 2"
    unfolding a_def s c w_def [symmetric] by (simp add: field_simps)
  have "u * (1 - w) \<le> 1 * (1 - w)" "- 1 * (1 - w) \<le> u * (1 - w)"
    using u w by (intro mult_right_mono; simp)+
  moreover have "v * w \<le> 1 * w" "- 1 * w \<le> v * w"
    using v w by (intro mult_right_mono; simp)+
  ultimately have m: "u * (1 - w) \<le> 1 - w" "w - 1 \<le> u * (1 - w)" "v * w \<le> w" "- w \<le> v * w"
    by simp_all
  have "u * (1 - w) - v * w \<le> 1"
    using m by linarith
  moreover have "- 1 \<le> u * (1 - w) - v * w"
    using m by linarith
  ultimately have "u * (1 - w) - v * w \<le> 1" "- 1 \<le> u * (1 - w) - v * w"
    by blast+
  then show "0 \<le> a" and "a \<le> 1"
    unfolding a by simp_all
qed

lemma atan2_sqrt_arcsin:
  assumes "0 \<le> a" and "a \<le> 1"
  shows "Math_atan2 (sqrt a) (sqrt (1 - a)) = arcsin (sqrt a)"
proof (cases "a = 1")
  case True
  then show ?thesis
    by (simp add: Math_atan2_def)
next
  case False
  with assms have lt: "a < 1" by simp
  then have pos: "0 < sqrt (1 - a)" by simp
  have "sqrt a < 1"
    using lt assms by (simp add: real_sqrt_lt_1_iff)
  moreover have "- 1 < sqrt a"
    using assms by (smt (verit) real_sqrt_ge_zero)
  ultimately have "arcsin (sqrt a) = arctan (sqrt a / sqrt (1 - (sqrt a)\<^sup>2))"
    using arcsin_arctan [of "sqrt a"] by simp
  also have "(sqrt a)\<^sup>2 = a"
    using assms by simp
  finally show ?thesis
    using pos by (simp add: Math_atan2_def)
qed

lemma calculateDistance_haversine:
  "calculateDistance from to = haversine_distance 6371000 from to"
proof -
  define p1 where "p1 = lat from * pi / 180"
  define p2 where "p2 = lat to * pi / 180"
  define dl where "dl = (lng to - lng from) * pi / 180"
  define a where "a = (sin ((p2 - p1) / 2))\<^sup>2 + cos p1 * cos p2 * (sin (dl / 2))\<^sup>2"
  have b: "0 \<le> a" "a \<le> 1"
    unfolding a_def by (rule hav_law_bounds)+
  have d1: "(lat to - lat from) * pi / 180 = p2 - p1"
    by (simp add: p1_def p2_def algebra_simps diff_divide_distrib)
  have d2: "lng to * pi / 180 - lng from * pi / 180 = dl"
    by (simp add: dl_def algebra_simps diff_divide_distrib)
  have "calculateDistance from to = 6371000 * (2 * Math_atan2 (sqrt a) (sqrt (1 - a)))"
    by (simp add: calculateDistance_def Let_def d1 a_def p1_def [symmetric] p2_def [symmetric]
        dl_def [symmetric] power2_eq_square mult.assoc)
  also have "\<dots> = 2 * 6371000 * arcsin (sqrt a)"
    by (simp add: atan2_sqrt_arcsin [OF b])
  also have "\<dots> = haversine_distance 6371000 from to"
    by (simp add: haversine_distance_def Let_def hav_def d2 a_def p1_def [symmetric] p2_def [symmetric])
  finally show ?thesis .
qed

subsection \<open>Two runs of the loop\<close>

lemma nn_loop_single:
  assumes "coords d = Some p"
  shows "nn_loop \<lparr>currentLocation = c, unvisited = [d], optimized = [], totalDistance = 0\<rparr>
    = Some \<lparr>currentLocation = p, unvisited = [],
        optimized = [\<lparr>original = Some d, orderIndex = 1, estimatedArrival = None,
                      distanceFromPrevious = Some (Math_round (calculateDistance c p))\<rparr>],
        totalDistance = calculateDistance c p\<rparr>"
proof -
  have "nn_body \<lparr>currentLocation = c, unvisited = [d], optimized = [], totalDistance = 0\<rparr>
    = Some \<lparr>currentLocation = p, unvisited = [],
        optimized = [\<lparr>original = Some d, orderIndex = 1, estimatedArrival = None,
                      distanceFromPrevious = Some (Math_round (calculateDistance c p))\<rparr>],
        totalDistance = calculateDistance c p\<rparr>"
    using assms by (simp add: nn_body_def less_than_def splice1_def Let_def)
  then show ?thesis
    by (simp add: nn_loop.simps)
qed

lemma equator_distance:
  assumes "lat a = 0" and "lat b = 0" and "0 \<le> lng b - lng a" and "lng b - lng a \<le> 180"
  shows "calculateDistance a b = 6371000 * ((lng b - lng a) * pi / 180)"
proof -
  define x where "x = (lng b - lng a) * pi / 180 / 2"
  have "(lng b - lng a) * pi \<le> 180 * pi"
    using assms(4) by (intro mult_right_mono) simp_all
  then have x: "0 \<le> x" "x \<le> pi / 2"
    using assms(3) by (simp_all add: x_def)
  have "lng b * pi / 180 - lng a * pi / 180 = 2 * x"
    by (simp add: x_def field_simps)
  then have "haversine_distance 6371000 a b = 2 * 6371000 * arcsin (sqrt ((sin x)\<^sup>2))"
    using assms(1,2) by (simp add: haversine_distance_def hav_def)
  also have "sqrt ((sin x)\<^sup>2) = sin x"
    using x sin_ge_zero [of x] by simp
  also have "arcsin (sin x) = x"
    using x by (intro arcsin_sin) simp_all
  finally show ?thesis
    by (simp add: calculateDistance_haversine x_def)
qed

lemma nn_loop_A_B:
  "nn_loop \<lparr>currentLocation = \<lparr>lat = 0, lng = 0\<rparr>,
            unvisited = [stop_at ''A'' 0 1, stop_at ''B'' 0 2],
            optimized = [], totalDistance = 0\<rparr>
   = Some \<lparr>currentLocation = \<lparr>lat = 0, lng = 2\<rparr>, unvisited = [],
       optimized =
         [\<lparr>original = Some (stop_at ''A'' 0 1), orderIndex = 1, estimatedArrival = None,
           distanceFromPrevious = Some (Math_round (6371000 * (pi / 180)))\<rparr>,
          \<lparr>original = Some (stop_at ''B'' 0 2), orderIndex = 2, estimatedArrival = None,
           distanceFromPrevious = Some (Math_round (6371000 * (pi / 180)))\<rparr>],
       totalDistance = 6371000 * (pi / 180) + 6371000 * (pi / 180)\<rparr>"
proof -
  let ?o = "\<lparr>lat = 0, lng = 0\<rparr> :: location"
  let ?a = "\<lparr>lat = 0, lng = 1\<rparr> :: location"
  let ?b = "\<lparr>lat = 0, lng = 2\<rparr> :: location"
  have oa: "calculateDistance ?o ?a = 6371000 * (pi / 180)"
    using equator_distance [of ?o ?a] by simp
  have ob: "calculateDistance ?o ?b = 6371000 * (2 * pi / 180)"
    using equator_distance [of ?o ?b] by simp
  have ab: "calculateDistance ?a ?b = 6371000 * (pi / 180)"
    using equator_distance [of ?a ?b] by simp
  have b1: "nn_body \<lparr>currentLocation = ?o,
            unvisited = [stop_at ''A'' 0 1, stop_at ''B'' 0 2],
            optimized = [], totalDistance = 0\<rparr>
      = Some \<lparr>currentLocation = ?a, unvisited = [stop_at ''B'' 0 2],
          optimized = [\<lparr>original = Some (stop_at ''A'' 0 1), orderIndex = 1, estimatedArrival = None,
             distanceFromPrevious = Some (Math_round (6371000 * (pi / 180)))\<rparr>],
          totalDistance = 6371000 * (pi / 180)\<rparr>"
    by (simp add: nn_body_def stop_at_def coords_def less_than_def splice1_def oa ob)
  have b2: "nn_body \<lparr>currentLocation = ?a, unvisited = [stop_at ''B'' 0 2],
          optimized = [\<lparr>original = Some (stop_at ''A'' 0 1), orderIndex = 1, estimatedArrival = None,
             distanceFromPrevious = Some (Math_round (6371000 * (pi / 180)))\<rparr>],
          totalDistance = 6371000 * (pi / 180)\<rparr>
      = Some \<lparr>currentLocation = ?b, unvisited = [],
       optimized =
         [\<lparr>original = Some (stop_at ''A'' 0 1), orderIndex = 1, estimatedArrival = None,
           distanceFromPrevious = Some (Math_round (6371000 * (pi / 180)))\<rparr>,
          \<lparr>original = Some (stop_at ''B'' 0 2), orderIndex = 2, estimatedArrival = None,
           distanceFromPrevious = Some (Math_round (6371000 * (pi / 180)))\<rparr>],
       totalDistance = 6371000 * (pi / 180) + 6371000 * (pi / 180)\<rparr>"
    by (simp add: nn_body_def stop_at_def coords_def less_than_def splice1_def ab)
  have l2: "nn_loop \<lparr>currentLocation = ?b, unvisited = [],
       optimized =
         [\<lparr>original = Some (stop_at ''A'' 0 1), orderIndex = 1, estimatedArrival = None,
           distanceFromPrevious = Some (Math_round (6371000 * (pi / 180)))\<rparr>,
          \<lparr>original = Some (stop_at ''B'' 0 2), orderIndex = 2, estimatedArrival = None,
           distanceFromPrevious = Some (Math_round (6371000 * (pi / 180)))\<rparr>],
       totalDistance = 6371000 * (pi / 180) + 6371000 * (pi / 180)\<rparr>
     = Some \<lparr>currentLocation = ?b, unvisited = [],
       optimized =
         [\<lparr>original = Some (stop_at ''A'' 0 1), orderIndex = 1, estimatedArrival = None,
           distanceFromPrevious = Some (Math_round (6371000 * (pi / 180)))\<rparr>,
          \<lparr>original = Some (stop_at ''B'' 0 2), orderIndex = 2, estimatedArrival = None,
           distanceFromPrevious = Some (Math_round (6371000 * (pi / 180)))\<rparr>],
       totalDistance = 6371000 * (pi / 180) + 6371000 * (pi / 180)\<rparr>"
    by (subst nn_loop.simps) simp
  have l1: "nn_loop \<lparr>currentLocation = ?a, unvisited = [stop_at ''B'' 0 2],
          optimized = [\<lparr>original = Some (stop_at ''A'' 0 1), orderIndex = 1, estimatedArrival = None,
             distanceFromPrevious = Some (Math_round (6371000 * (pi / 180)))\<rparr>],
          totalDistance = 6371000 * (pi / 180)\<rparr>
     = Some \<lparr>currentLocation = ?b, unvisited = [],
       optimized =
         [\<lparr>original = Some (stop_at ''A'' 0 1), orderIndex = 1, estimatedArrival = None,
           distanceFromPrevious = Some (Math_round (6371000 * (pi / 180)))\<rparr>,
          \<lparr>original = Some (stop_at ''B'' 0 2), orderIndex = 2, estimatedArrival = None,
           distanceFromPrevious = Some (Math_round (6371000 * (pi / 180)))\<rparr>],
       totalDistance = 6371000 * (pi / 180) + 6371000 * (pi / 180)\<rparr>"
    by (subst nn_loop.simps) (simp only: b2 l2 list.size option.case, simp)
  show ?thesis
    by (subst nn_loop.simps) (simp only: b1 l1 list.size option.case, simp)
qed


text \<open>
  C9. Warehouse at (41.6523, -4.7245) and one delivery at the same coordinates: the
  total distance is 0, the delivery's \<open>distanceFromPrevious\<close> is 0 and the total
  duration is 300 seconds.
\<close>

theorem same_coordinates_route:
  assumes "\<not> falsy_string (GOOGLE_MAPS_API_KEY e)"
    and "deliveries body = Deliveries [d]"
    and "lat d = Some 41.6523" and "lng d = Some (- 4.7245)"
    and "warehouseLocation body = Some \<lparr>lat = Some 41.6523, lng = Some (- 4.7245)\<rparr>"
  shows "\<exists>r. POST_optimize_simple e (Some body) = (Some (Route_response r), [])
           \<and> totalDistanceMeters r = 0
           \<and> map distanceFromPrevious (optimizedDeliveries r) = [Some 0]
           \<and> totalDurationSeconds r = Some 300"
proof -
  let ?p = "\<lparr>lat = 41.6523, lng = - 4.7245\<rparr> :: location"
  have c: "coords d = Some ?p"
    using assms(3,4) by (simp add: coords_def)
  have r0: "Math_round 0 = 0" and r300: "Math_round 300 = 300"
    by (simp_all add: Math_round_def)
  show ?thesis
    using assms
    by (simp add: POST_optimize_simple_def falsy_number_def coords_def
        nn_loop_single [OF c] calculateDistance_same nn_route_def r0 r300)
qed

theorem same_coordinates_route_witness:
  "\<exists>r. POST_optimize_simple
          \<lparr>GOOGLE_MAPS_API_KEY = Some ''key'', GOOGLE_CLOUD_PROJECT_ID = None,
           GOOGLE_SERVICE_ACCOUNT_CREDENTIALS = None\<rparr>
          (Some \<lparr>deliveries = Deliveries [stop_at ''A'' 41.6523 (- 4.7245)],
                 warehouseLocation = Some \<lparr>lat = Some 41.6523, lng = Some (- 4.7245)\<rparr>,
                 requestStartTime = None\<rparr>)
        = (Some (Route_response r), [])
      \<and> totalDistanceMeters r = 0
      \<and> map distanceFromPrevious (optimizedDeliveries r) = [Some 0]
      \<and> totalDurationSeconds r = Some 300"
  using same_coordinates_route
    [of "\<lparr>GOOGLE_MAPS_API_KEY = Some ''key'', GOOGLE_CLOUD_PROJECT_ID = None,
           GOOGLE_SERVICE_ACCOUNT_CREDENTIALS = None\<rparr>"
        "\<lparr>deliveries = Deliveries [stop_at ''A'' 41.6523 (- 4.7245)],
                 warehouseLocation = Some \<lparr>lat = Some 41.6523, lng = Some (- 4.7245)\<rparr>,
                 requestStartTime = None\<rparr>"
        "stop_at ''A'' 41.6523 (- 4.7245)"]
  by (simp add: falsy_string_def stop_at_def)

text \<open>
  C2 as the specification states it fails: a warehouse at (0,0) and deliveries at
  (0,1) and (0,2) have a zero coordinate each, and the endpoint answers status 400
  instead of a route.
\<close>

theorem zero_coordinates_rejected:
  "fst (POST_optimize_simple
          \<lparr>GOOGLE_MAPS_API_KEY = Some ''key'', GOOGLE_CLOUD_PROJECT_ID = None,
           GOOGLE_SERVICE_ACCOUNT_CREDENTIALS = None\<rparr>
          (Some \<lparr>deliveries = Deliveries [stop_at ''A'' 0 1, stop_at ''B'' 0 2],
                 warehouseLocation = Some \<lparr>lat = Some 0, lng = Some 0\<rparr>,
                 requestStartTime = None\<rparr>))
     = Some (Error_response 400 (MissingCoordinates 2))"
  by (simp add: POST_optimize_simple_def falsy_string_def falsy_number_def stop_at_def)

text \<open>
  C2, amended. For the warehouse (0,0) and the deliveries A at (0,1) and B at (0,2),
  in this order, the endpoint answers status 400, both deliveries counting as
  without coordinates; the nearest-neighbour loop itself, run on this input, visits
  A before B and numbers them 1 and 2.
\<close>

theorem zero_axis_stops:
  assumes "\<not> falsy_string (GOOGLE_MAPS_API_KEY e)"
    and "deliveries body = Deliveries [stop_at ''A'' 0 1, stop_at ''B'' 0 2]"
  shows "POST_optimize_simple e (Some body) = (Some (Error_response 400 (MissingCoordinates 2)), [])
         \<and> (\<exists>s. nn_loop \<lparr>currentLocation = \<lparr>lat = 0, lng = 0\<rparr>,
                          unvisited = [stop_at ''A'' 0 1, stop_at ''B'' 0 2],
                          optimized = [], totalDistance = 0\<rparr> = Some s
                \<and> map original (optimized s) = [Some (stop_at ''A'' 0 1), Some (stop_at ''B'' 0 2)]
                \<and> map orderIndex (optimized s) = [1, 2])"
proof
  show "POST_optimize_simple e (Some body) = (Some (Error_response 400 (MissingCoordinates 2)), [])"
    using assms by (simp add: POST_optimize_simple_def falsy_number_def stop_at_def)
  show "\<exists>s. nn_loop \<lparr>currentLocation = \<lparr>lat = 0, lng = 0\<rparr>,
                          unvisited = [stop_at ''A'' 0 1, stop_at ''B'' 0 2],
                          optimized = [], totalDistance = 0\<rparr> = Some s
                \<and> map original (optimized s) = [Some (stop_at ''A'' 0 1), Some (stop_at ''B'' 0 2)]
                \<and> map orderIndex (optimized s) = [1, 2]"
    unfolding nn_loop_A_B by simp
qed

theorem zero_axis_stops_witness:
  "POST_optimize_simple
      \<lparr>GOOGLE_MAPS_API_KEY = Some ''k'', GOOGLE_CLOUD_PROJECT_ID = None,
       GOOGLE_SERVICE_ACCOUNT_CREDENTIALS = None\<rparr>
      (Some \<lparr>deliveries = Deliveries [stop_at ''A'' 0 1, stop_at ''B'' 0 2],
             warehouseLocation = Some \<lparr>lat = Some 0, lng = Some 0\<rparr>,
             requestStartTime = Some ''2024-01-15T10:00:00Z''\<rparr>)
    = (Some (Error_response 400 (MissingCoordinates 2)), [])"
  using zero_axis_stops
    [of "\<lparr>GOOGLE_MAPS_API_KEY = Some ''k'', GOOGLE_CLOUD_PROJECT_ID = None,
       GOOGLE_SERVICE_ACCOUNT_CREDENTIALS = None\<rparr>"
        "\<lparr>deliveries = Deliveries [stop_at ''A'' 0 1, stop_at ''B'' 0 2],
             warehouseLocation = Some \<lparr>lat = Some 0, lng = Some 0\<rparr>,
             requestStartTime = Some ''2024-01-15T10:00:00Z''\<rparr>"]
  by (simp add: falsy_string_def)

section \<open>Rounding in double precision\<close>

text \<open>
  Evaluating \<open>fl\<close> on numerals. The examples are the doubles of 1.005, 0.1, 1.36
  and 1/3, and ties at the 54th bit, which go to the even significand.
\<close>

lemma ilog2_numeral:
  "ilog2 (numeral k) = (if numeral k < (2::nat) then 0 else ilog2 (numeral k div 2) + 1)"
  by (rule ilog2.simps)

lemma ilog2_small: "ilog2 0 = 0" "ilog2 1 = 0" "ilog2 (Suc 0) = 0"
  by (simp_all add: ilog2.simps)

lemmas fl_eval = fl_def floor_log2_def pow2_def round_half_even_def ilog2_numeral ilog2_small Let_def

lemma fl_double_small: "\<bar>x\<bar> \<le> 2 ^ 1000 \<Longrightarrow> fl_double x = Num (fl x)"
proof -
  assume a: "\<bar>x\<bar> \<le> 2 ^ 1000"
  have "(2::real) ^ 1000 < 2 ^ 1024 - 2 ^ 970"
    by simp
  with a show ?thesis
    unfolding fl_double_def by (simp add: abs_le_iff)
qed

lemma fl_examples:
  "fl 0 = 0" "fl 1 = 1" "fl (1 / 2) = 1 / 2" "fl 10 = 10" "fl (21 / 2) = 21 / 2"
  "fl (201 / 200) = 1131529406376837 / 1125899906842624"
  "fl (1131529406376837 / 1125899906842624) = 1131529406376837 / 1125899906842624"
  "fl (1 / 10) = 3602879701896397 / 36028797018963968"
  "fl (34 / 25) = 6124895493223875 / 4503599627370496"
  "fl (1 / 3) = 6004799503160661 / 18014398509481984"
  "fl (9007199254740993 / 9007199254740992) = 1"
  "fl (9007199254740995 / 9007199254740992) = 2251799813685249 / 2251799813685248"
  "fl (- (9007199254740993 / 9007199254740992)) = - 1"
  "fl 9007199254740993 = 9007199254740992"
  by (simp_all add: fl_eval)

lemma floor_half_nearest:
  fixes y :: real
  defines "n \<equiv> \<lfloor>y + 1 / 2\<rfloor>"
  shows "\<bar>of_int n - y\<bar> \<le> \<bar>of_int m - y\<bar>"
    and "\<bar>of_int m - y\<bar> = \<bar>of_int n - y\<bar> \<Longrightarrow> m \<le> n"
proof -
  have lo: "of_int n \<le> y + 1 / 2" and hi: "y + 1 / 2 < of_int n + 1"
    unfolding n_def by linarith+
  show "\<bar>of_int n - y\<bar> \<le> \<bar>of_int m - y\<bar>"
  proof (cases "m \<le> n - 1")
    case True
    then have "(of_int m :: real) \<le> of_int n - 1"
      by (metis of_int_1 of_int_diff of_int_le_iff)
    with lo hi show ?thesis by linarith
  next
    case False
    show ?thesis
    proof (cases "m = n")
      case True
      then show ?thesis by simp
    next
      case False
      with \<open>\<not> m \<le> n - 1\<close> have "n + 1 \<le> m" by simp
      then have "(of_int n :: real) + 1 \<le> of_int m"
        by (metis of_int_1 of_int_add of_int_le_iff)
      with lo hi show ?thesis by linarith
    qed
  qed
  show "m \<le> n" if "\<bar>of_int m - y\<bar> = \<bar>of_int n - y\<bar>"
  proof (rule ccontr)
    assume "\<not> m \<le> n"
    then have "n + 1 \<le> m" by simp
    then have "(of_int n :: real) + 1 \<le> of_int m"
      by (metis of_int_1 of_int_add of_int_le_iff)
    with lo hi that show False by linarith
  qed
qed

lemma half_up_2dp_floor: "half_up_2dp x (of_int \<lfloor>x * 100 + 1 / 2\<rfloor> / 100)"
proof -
  define n where "n = \<lfloor>x * 100 + 1 / 2\<rfloor>"
  have a: "\<bar>of_int n / 100 - x\<bar> \<le> \<bar>of_int m / 100 - x\<bar>" for m :: int
    using floor_half_nearest(1) [of "x * 100" m] unfolding n_def by (simp add: field_simps abs_if split: if_splits)
  have b: "m \<le> n" if "\<bar>of_int m / 100 - x\<bar> = \<bar>of_int n / 100 - x\<bar>" for m :: int
  proof -
    have "\<bar>of_int m - x * 100\<bar> = \<bar>of_int n - x * 100\<bar>"
    proof -
      have "\<bar>of_int k - x * 100\<bar> = 100 * \<bar>of_int k / 100 - x\<bar>" for k :: int
        by (simp add: abs_if field_simps)
      with that show ?thesis by simp
    qed
    then show ?thesis
      unfolding n_def by (rule floor_half_nearest(2))
  qed
  show ?thesis
    unfolding half_up_2dp_def n_def [symmetric] using a b by blast
qed

lemma half_up_2dp_unique: "half_up_2dp x r \<Longrightarrow> half_up_2dp x r' \<Longrightarrow> r = r'"
proof -
  assume "half_up_2dp x r" and "half_up_2dp x r'"
  then obtain n n' :: int where
    n: "r = of_int n / 100" "\<forall>m::int. \<bar>of_int n / 100 - x\<bar> \<le> \<bar>of_int m / 100 - x\<bar>"
       "\<forall>m::int. \<bar>of_int m / 100 - x\<bar> = \<bar>of_int n / 100 - x\<bar> \<longrightarrow> m \<le> n"
    and n': "r' = of_int n' / 100" "\<forall>m::int. \<bar>of_int n' / 100 - x\<bar> \<le> \<bar>of_int m / 100 - x\<bar>"
       "\<forall>m::int. \<bar>of_int m / 100 - x\<bar> = \<bar>of_int n' / 100 - x\<bar> \<longrightarrow> m \<le> n'"
    unfolding half_up_2dp_def by blast
  have "\<bar>of_int n / 100 - x\<bar> = \<bar>of_int n' / 100 - x\<bar>"
    using n(2) [rule_format, of n'] n'(2) [rule_format, of n] by simp
  then have "n' \<le> n" "n \<le> n'"
    using n(3) [rule_format, of n'] n'(3) [rule_format, of n] by simp_all
  then show ?thesis
    by (simp add: n(1) n'(1))
qed

lemma parseFloat_toFixed_2:
  assumes "0 \<le> s" and "s < 10 ^ 21"
  shows "\<exists>r. half_up_2dp s r \<and> parseFloat_toFixed (Num s) 2 = fl_double r"
proof (intro exI conjI)
  show "half_up_2dp s (of_int \<lfloor>s * 100 + 1 / 2\<rfloor> / 100)"
    by (rule half_up_2dp_floor)
  show "parseFloat_toFixed (Num s) 2 = fl_double (of_int \<lfloor>s * 100 + 1 / 2\<rfloor> / 100)"
    using assms by (simp add: parseFloat_toFixed_def)
qed

text \<open>
  C4 as the specification states it fails. For 1005 meters and 0 seconds the cost
  \<open>(1005 / 1000) * 1.0 + (0 / 3600) * 0.5\<close> is 1.005, which rounded half up to two
  decimals is 1.01 and not 1. \<open>calculateRouteCost\<close> returns 1: the quotient
  \<open>1005 / 1000\<close> in double precision is the double next below 1.005, and \<open>toFixed\<close>
  rounds that double.
\<close>

theorem calculateRouteCost_half_up:
  "calculateRouteCost (Num 1005) (Num 0) = Num 1
   \<and> half_up_2dp (1005 / 1000 * 1.0 + 0 / 3600 * 0.5) (101 / 100)
   \<and> \<not> half_up_2dp (1005 / 1000 * 1.0 + 0 / 3600 * 0.5) 1"
proof (intro conjI)
  show "calculateRouteCost (Num 1005) (Num 0) = Num 1"
    by (simp add: calculateRouteCost_def ROUTE_OPTIMIZATION_CONFIG_def parseFloat_toFixed_def
      double_div_def fl_double_small fl_examples Let_def)
  have "half_up_2dp (201 / 200) (of_int \<lfloor>(201 / 200 :: real) * 100 + 1 / 2\<rfloor> / 100)"
    by (rule half_up_2dp_floor)
  then show h: "half_up_2dp (1005 / 1000 * 1.0 + 0 / 3600 * 0.5) (101 / 100)"
    by simp
  show "\<not> half_up_2dp (1005 / 1000 * 1.0 + 0 / 3600 * 0.5) 1"
  proof
    assume "half_up_2dp (1005 / 1000 * 1.0 + 0 / 3600 * 0.5) 1"
    from half_up_2dp_unique [OF this h] show False
      by simp
  qed
qed

text \<open>
  C4, amended. \<open>calculateRouteCost\<close> evaluates
  \<open>(distance / 1000) * 1.0 + (duration / 3600) * 0.5\<close> in double precision. When the
  double \<open>s\<close> that this yields is not negative and below \<open>10^21\<close>, the function
  returns the double nearest to \<open>r\<close>, where \<open>r\<close> is \<open>s\<close> rounded half up to two
  decimals. \<open>calculateRouteCost 10000 3600\<close> is 10.50.
\<close>

theorem calculateRouteCost_rounds_half_up:
  "calculateRouteCost (Num 10000) (Num 3600) = Num 10.50
   \<and> (double_add (double_mul (double_div (Num meters) 1000) (Num 1.0))
                   (double_mul (double_div (Num seconds) 3600) (Num 0.5)) = Num s
        \<and> 0 \<le> s \<and> s < 10 ^ 21
      \<longrightarrow> (\<exists>r. half_up_2dp s r \<and> calculateRouteCost (Num meters) (Num seconds) = fl_double r))"
proof
  show "calculateRouteCost (Num 10000) (Num 3600) = Num 10.50"
    by (simp add: calculateRouteCost_def ROUTE_OPTIMIZATION_CONFIG_def parseFloat_toFixed_def
      double_div_def fl_double_small fl_examples Let_def)
  show "double_add (double_mul (double_div (Num meters) 1000) (Num 1.0))
                   (double_mul (double_div (Num seconds) 3600) (Num 0.5)) = Num s
        \<and> 0 \<le> s \<and> s < 10 ^ 21
      \<longrightarrow> (\<exists>r. half_up_2dp s r \<and> calculateRouteCost (Num meters) (Num seconds) = fl_double r)"
  proof
    assume h: "double_add (double_mul (double_div (Num meters) 1000) (Num 1.0))
                   (double_mul (double_div (Num seconds) 3600) (Num 0.5)) = Num s
        \<and> 0 \<le> s \<and> s < 10 ^ 21"
    then have sum: "double_add (double_mul (double_div (Num meters) 1000) (Num 1))
                   (double_mul (double_div (Num seconds) 3600) (Num (1 / 2))) = Num s"
      by simp
    have "calculateRouteCost (Num meters) (Num seconds) = parseFloat_toFixed (Num s) 2"
      unfolding calculateRouteCost_def Let_def
      by (simp only: ROUTE_OPTIMIZATION_CONFIG_def route_optimization_config.simps)
         (simp add: sum)
    with parseFloat_toFixed_2 [of s] h
    show "\<exists>r. half_up_2dp s r \<and> calculateRouteCost (Num meters) (Num seconds) = fl_double r"
      by simp
  qed
qed

theorem calculateRouteCost_rounds_half_up_witness:
  "\<exists>r. half_up_2dp (765048986699563 / 562949953421312) r
      \<and> calculateRouteCost (Num 1234) (Num 900) = fl_double r
      \<and> calculateRouteCost (Num 1234) (Num 900) = Num (6124895493223875 / 4503599627370496)"
proof -
  have sum: "double_add (double_mul (double_div (Num 1234) 1000) (Num 1.0))
                   (double_mul (double_div (Num 900) 3600) (Num 0.5))
               = Num (765048986699563 / 562949953421312)"
    by (simp add: double_div_def fl_double_small fl_eval)
  have val: "calculateRouteCost (Num 1234) (Num 900) = Num (6124895493223875 / 4503599627370496)"
    by (simp add: calculateRouteCost_def ROUTE_OPTIMIZATION_CONFIG_def parseFloat_toFixed_def
      double_div_def fl_double_small fl_eval)
  from calculateRouteCost_rounds_half_up [of 1234 900 "765048986699563 / 562949953421312"] sum val
  show ?thesis
    by simp
qed


section \<open>The nearest-neighbour loop in double precision\<close>

subsection \<open>The inner loop finds the first nearest computed distance\<close>

lemma double_less_irrefl: "\<not> double_less a a"
  by (cases a) simp_all

lemma double_less_trans: "double_less a b \<Longrightarrow> double_less b c \<Longrightarrow> double_less a c"
  by (cases a; cases b; cases c) simp_all

lemma double_less_comparable: "double_less a b \<Longrightarrow> double_less a PosInf"
  by (cases a; cases b) simp_all

lemma double_less_total:
  "double_less a PosInf \<Longrightarrow> double_less b PosInf \<Longrightarrow> \<not> double_less a b \<Longrightarrow> a = b \<or> double_less b a"
  by (cases a; cases b) auto

lemma nearest_found_step:
  assumes "nearest_found lib current pre (ni, nd)"
  shows "nearest_found lib current (pre @ [d])
           (let distance = calculateDistance_double lib current (coords_double d) in
            if double_less distance nd then (length pre, distance) else (ni, nd))"
proof -
  define dist where "dist = (\<lambda>x::delivery. calculateDistance_double lib current (coords_double x))"
  define k where "k = length pre"
  have nf: "nearest_found lib current xs (i, m) \<longleftrightarrow>
      (m = PosInf \<and> i = 0 \<and> (\<forall>j < length xs. \<not> double_less (dist (xs ! j)) PosInf))
      \<or> (i < length xs \<and> m = dist (xs ! i) \<and> double_less m PosInf
          \<and> (\<forall>j < length xs. \<not> double_less (dist (xs ! j)) m)
          \<and> (\<forall>j < i. double_less (dist (xs ! j)) PosInf \<longrightarrow> double_less m (dist (xs ! j))))"
    for xs i m
    by (simp add: nearest_found_def dist_def)
  have nth_pre: "(pre @ [d]) ! j = pre ! j" if "j < k" for j
    using that by (simp add: nth_append k_def)
  have nth_k: "(pre @ [d]) ! k = d"
    by (simp add: k_def)
  have len: "length (pre @ [d]) = Suc k"
    by (simp add: k_def)
  have all_Suc: "(\<forall>j < Suc k. P j) \<longleftrightarrow> (\<forall>j < k. P j) \<and> P k" for P
    by (auto simp: less_Suc_eq)
  from assms consider
    (none) "nd = PosInf" "ni = 0" "\<forall>j < k. \<not> double_less (dist (pre ! j)) PosInf"
  | (some) "ni < k" "nd = dist (pre ! ni)" "double_less nd PosInf"
      "\<forall>j < k. \<not> double_less (dist (pre ! j)) nd"
      "\<forall>j < ni. double_less (dist (pre ! j)) PosInf \<longrightarrow> double_less nd (dist (pre ! j))"
    unfolding nf k_def by blast
  then have "nearest_found lib current (pre @ [d])
           (if double_less (dist d) nd then (k, dist d) else (ni, nd))"
  proof cases
    case none
    show ?thesis
    proof (cases "double_less (dist d) PosInf")
      case True
      have a: "\<not> double_less (dist (pre ! j)) (dist d)" if "j < k" for j
        using none(3) that double_less_comparable by blast
      have "nearest_found lib current (pre @ [d]) (k, dist d)"
        unfolding nf len all_Suc nth_k
        using True a none(3) by (simp add: nth_pre double_less_irrefl)
      with True none(1) show ?thesis
        by simp
    next
      case False
      have "nearest_found lib current (pre @ [d]) (0, PosInf)"
        unfolding nf len all_Suc nth_k
        using False none(3) by (simp add: nth_pre)
      with False none(1,2) show ?thesis
        by simp
    qed
  next
    case some
    show ?thesis
    proof (cases "double_less (dist d) nd")
      case True
      have c: "double_less (dist d) PosInf"
        using True by (rule double_less_comparable)
      have a: "\<not> double_less (dist (pre ! j)) (dist d)" if "j < k" for j
        using some(4) that True double_less_trans by blast
      have b: "double_less (dist d) (dist (pre ! j))"
        if "j < k" "double_less (dist (pre ! j)) PosInf" for j
      proof -
        from some(4) that(1) have "\<not> double_less (dist (pre ! j)) nd"
          by blast
        from double_less_total [OF that(2) some(3) this]
        show ?thesis
          using True double_less_trans by blast
      qed
      have "nearest_found lib current (pre @ [d]) (k, dist d)"
        unfolding nf len all_Suc nth_k
        using a b c by (simp add: nth_pre double_less_irrefl)
      with True show ?thesis
        by simp
    next
      case False
      have lt: "j < k" if "j < ni" for j
        using that some(1) by simp
      have "nearest_found lib current (pre @ [d]) (ni, nd)"
        unfolding nf len all_Suc nth_k
        using some False by (simp add: nth_pre lt)
      with False show ?thesis
        by simp
    qed
  qed
  then show ?thesis
    unfolding dist_def k_def Let_def .
qed

lemma nearest_scan_double_inv:
  "nearest_found lib current pre best
     \<Longrightarrow> nearest_found lib current (pre @ rest)
           (nearest_scan_double lib current rest (length pre) best)"
proof (induction rest arbitrary: pre best)
  case Nil
  then show ?case by simp
next
  case (Cons d rest)
  obtain ni nd where best: "best = (ni, nd)"
    by (cases best)
  from Cons.prems have "nearest_found lib current (pre @ [d])
           (let distance = calculateDistance_double lib current (coords_double d) in
            if double_less distance nd then (length pre, distance) else (ni, nd))"
    unfolding best by (rule nearest_found_step)
  from Cons.IH [OF this] show ?case
    by (simp add: best)
qed

lemma nearest_scan_double_found:
  "nearest_found lib current xs (nearest_scan_double lib current xs 0 (0, PosInf))"
  using nearest_scan_double_inv [of lib current "[]" "(0, PosInf)" xs]
  by (simp add: nearest_found_def)

lemma nearest_scan_double_index:
  "xs \<noteq> [] \<Longrightarrow> fst (nearest_scan_double lib current xs 0 (0, PosInf)) < length xs"
  using nearest_scan_double_found [of lib current xs]
  by (cases "nearest_scan_double lib current xs 0 (0, PosInf)") (auto simp: nearest_found_def)

subsection \<open>The tour\<close>

lemma nn_body_double_found:
  assumes "unvisited_d s \<noteq> []"
  shows "\<exists>i nd. i < length (unvisited_d s)
           \<and> nearest_found lib (currentLocation_d s) (unvisited_d s) (i, nd)
           \<and> nn_body_double lib s =
               Some \<lparr>currentLocation_d = coords_double (unvisited_d s ! i),
                     unvisited_d = splice1 (unvisited_d s) i,
                     optimized_d = optimized_d s @
                       [\<lparr>original_d = unvisited_d s ! i,
                         orderIndex_d = length (optimized_d s) + 1,
                         distanceFromPrevious_d = Math_round_double nd\<rparr>],
                     totalDistance_d = double_add (totalDistance_d s) nd\<rparr>"
proof -
  obtain i nd where scan:
    "nearest_scan_double lib (currentLocation_d s) (unvisited_d s) 0 (0, PosInf) = (i, nd)"
    by (cases "nearest_scan_double lib (currentLocation_d s) (unvisited_d s) 0 (0, PosInf)")
  have found: "nearest_found lib (currentLocation_d s) (unvisited_d s) (i, nd)"
    using nearest_scan_double_found [of lib "currentLocation_d s" "unvisited_d s"]
    by (simp add: scan)
  have i: "i < length (unvisited_d s)"
    using nearest_scan_double_index [OF assms, of lib "currentLocation_d s"] by (simp add: scan)
  have "nn_body_double lib s =
               Some \<lparr>currentLocation_d = coords_double (unvisited_d s ! i),
                     unvisited_d = splice1 (unvisited_d s) i,
                     optimized_d = optimized_d s @
                       [\<lparr>original_d = unvisited_d s ! i,
                         orderIndex_d = length (optimized_d s) + 1,
                         distanceFromPrevious_d = Math_round_double nd\<rparr>],
                     totalDistance_d = double_add (totalDistance_d s) nd\<rparr>"
    using i by (simp add: nn_body_double_def scan Let_def)
  with i found show ?thesis
    by blast
qed

lemma nearest_found_leg:
  assumes "nearest_found lib current xs (i, nd)"
  shows "nd = PosInf
         \<or> (nd = calculateDistance_double lib current (coords_double (xs ! i))
            \<and> double_less nd PosInf)"
  using assms by (auto simp: nearest_found_def)

lemma nn_loop_double_tour:
  "\<exists>out fs.
     nn_loop_double lib s =
       Some \<lparr>currentLocation_d =
               last (currentLocation_d s # map (\<lambda>od. coords_double (original_d od)) out),
             unvisited_d = [],
             optimized_d = optimized_d s @ out,
             totalDistance_d = foldl double_add (totalDistance_d s) fs\<rparr>
     \<and> mset (map original_d out) = mset (unvisited_d s)
     \<and> map orderIndex_d out =
         [length (optimized_d s) + 1 ..< length (optimized_d s) + length (unvisited_d s) + 1]
     \<and> map distanceFromPrevious_d out = map Math_round_double fs
     \<and> found_legs lib (currentLocation_d s) (map (\<lambda>od. coords_double (original_d od)) out) fs"
proof (induction lib s rule: nn_loop_double.induct)
  case (1 lib s)
  show ?case
  proof (cases "unvisited_d s = []")
    case True
    then have "nn_loop_double lib s = Some s"
      by (simp add: nn_loop_double.simps)
    moreover have "s = \<lparr>currentLocation_d =
               last (currentLocation_d s # map (\<lambda>od. coords_double (original_d od)) []),
             unvisited_d = [],
             optimized_d = optimized_d s @ [],
             totalDistance_d = foldl double_add (totalDistance_d s) []\<rparr>"
      using True by simp
    ultimately have "nn_loop_double lib s = Some \<lparr>currentLocation_d =
               last (currentLocation_d s # map (\<lambda>od. coords_double (original_d od)) []),
             unvisited_d = [],
             optimized_d = optimized_d s @ [],
             totalDistance_d = foldl double_add (totalDistance_d s) []\<rparr>"
      by simp
    then show ?thesis
      using True
      by (intro exI [of _ "[]"]) simp
  next
    case False
    let ?xs = "unvisited_d s"
    from nn_body_double_found [OF False, of lib] obtain i nd where
      i: "i < length ?xs" and
      found: "nearest_found lib (currentLocation_d s) ?xs (i, nd)" and
      body: "nn_body_double lib s =
               Some \<lparr>currentLocation_d = coords_double (?xs ! i),
                     unvisited_d = splice1 ?xs i,
                     optimized_d = optimized_d s @
                       [\<lparr>original_d = ?xs ! i,
                         orderIndex_d = length (optimized_d s) + 1,
                         distanceFromPrevious_d = Math_round_double nd\<rparr>],
                     totalDistance_d = double_add (totalDistance_d s) nd\<rparr>"
      by blast
    define od where "od = \<lparr>original_d = ?xs ! i,
                         orderIndex_d = length (optimized_d s) + 1,
                         distanceFromPrevious_d = Math_round_double nd\<rparr>"
    define s' where "s' = \<lparr>currentLocation_d = coords_double (?xs ! i),
                     unvisited_d = splice1 ?xs i,
                     optimized_d = optimized_d s @ [od],
                     totalDistance_d = double_add (totalDistance_d s) nd\<rparr>"
    have body': "nn_body_double lib s = Some s'"
      by (simp add: body s'_def od_def)
    from False have pos: "0 < length ?xs"
      by simp
    from "1.IH" [OF pos body'] obtain out fs where
      loop: "nn_loop_double lib s' =
             Some \<lparr>currentLocation_d =
                     last (currentLocation_d s' # map (\<lambda>od. coords_double (original_d od)) out),
                   unvisited_d = [],
                   optimized_d = optimized_d s' @ out,
                   totalDistance_d = foldl double_add (totalDistance_d s') fs\<rparr>"
      and perm: "mset (map original_d out) = mset (unvisited_d s')"
      and idx: "map orderIndex_d out =
               [length (optimized_d s') + 1 ..< length (optimized_d s') + length (unvisited_d s') + 1]"
      and dist: "map distanceFromPrevious_d out = map Math_round_double fs"
      and legs: "found_legs lib (currentLocation_d s')
                   (map (\<lambda>od. coords_double (original_d od)) out) fs"
      by blast
    have "nn_loop_double lib s = nn_loop_double lib s'"
      using pos body' by (subst nn_loop_double.simps) simp
    also have "\<dots> = Some \<lparr>currentLocation_d =
               last (currentLocation_d s # map (\<lambda>od. coords_double (original_d od)) (od # out)),
             unvisited_d = [],
             optimized_d = optimized_d s @ od # out,
             totalDistance_d = foldl double_add (totalDistance_d s) (nd # fs)\<rparr>"
      unfolding loop by (simp add: s'_def od_def)
    finally have r1: "nn_loop_double lib s = Some \<lparr>currentLocation_d =
               last (currentLocation_d s # map (\<lambda>od. coords_double (original_d od)) (od # out)),
             unvisited_d = [],
             optimized_d = optimized_d s @ od # out,
             totalDistance_d = foldl double_add (totalDistance_d s) (nd # fs)\<rparr>" .
    have r2: "mset (map original_d (od # out)) = mset ?xs"
      using perm mset_splice1 [OF i] by (simp add: od_def s'_def)
    have r3: "map orderIndex_d (od # out) =
               [length (optimized_d s) + 1 ..< length (optimized_d s) + length ?xs + 1]"
    proof -
      have "length (unvisited_d s') = length ?xs - 1"
        by (simp add: s'_def length_splice1 [OF i])
      then have "length (optimized_d s') + 1 = length (optimized_d s) + 2"
        and "length (optimized_d s') + length (unvisited_d s') + 1
               = length (optimized_d s) + length ?xs + 1"
        using pos by (simp_all add: s'_def)
      then have "map orderIndex_d out =
                   [length (optimized_d s) + 2 ..< length (optimized_d s) + length ?xs + 1]"
        using idx by (simp only:)
      moreover have "[length (optimized_d s) + 1 ..< length (optimized_d s) + length ?xs + 1]
          = (length (optimized_d s) + 1)
            # [length (optimized_d s) + 2 ..< length (optimized_d s) + length ?xs + 1]"
        using pos by (simp add: upt_conv_Cons del: upt_Suc)
      ultimately show ?thesis
        by (simp add: od_def del: upt_Suc)
    qed
    have r4: "map distanceFromPrevious_d (od # out) = map Math_round_double (nd # fs)"
      using dist by (simp add: od_def)
    have r5: "found_legs lib (currentLocation_d s)
                (map (\<lambda>od. coords_double (original_d od)) (od # out)) (nd # fs)"
      using legs nearest_found_leg [OF found] by (simp add: od_def s'_def)
    from r1 r2 r3 r4 r5 show ?thesis
      by blast
  qed
qed

lemma nn_body_double_unvisited:
  "nn_body_double lib s = Some s' \<Longrightarrow> \<exists>i. unvisited_d s' = splice1 (unvisited_d s) i"
  by (auto simp: nn_body_double_def Let_def split: prod.splits if_splits)

lemma nn_reachable_double_inv:
  assumes "nn_reachable_double lib s0 s"
  shows "subseq (unvisited_d s) (unvisited_d s0)" and "nn_loop_double lib s = nn_loop_double lib s0"
  using assms
proof (induction rule: nn_reachable_double.induct)
  case start
  case 1 show ?case by simp
  case 2 show ?case by simp
next
  case (iterate s s')
  from iterate.hyps(3) obtain i where "unvisited_d s' = splice1 (unvisited_d s) i"
    using nn_body_double_unvisited by blast
  then have "subseq (unvisited_d s') (unvisited_d s)"
    by (simp add: subseq_splice1)
  case 1
  from \<open>subseq (unvisited_d s') (unvisited_d s)\<close> iterate.IH(1) show ?case
    by (rule subseq_order.order_trans)
  case 2
  have "nn_loop_double lib s = nn_loop_double lib s'"
    using iterate.hyps(2,3) by (subst nn_loop_double.simps) simp
  with iterate.IH(2) show ?case
    by simp
qed

lemma POST_optimize_simple_double_valid:
  assumes key: "\<not> falsy_string (GOOGLE_MAPS_API_KEY e)"
    and ds: "deliveries body = Deliveries ds" "ds \<noteq> []"
    and truthy: "\<forall>d \<in> set ds. \<not> falsy_number (lat d) \<and> \<not> falsy_number (lng d)"
    and w: "warehouseLocation body = Some w" "\<not> falsy_number (lat w)" "\<not> falsy_number (lng w)"
    and loop: "nn_loop_double lib \<lparr>currentLocation_d = coords_double w, unvisited_d = ds,
                                   optimized_d = [], totalDistance_d = Num 0\<rparr> = Some s"
  shows "POST_optimize_simple_double lib e (Some body) =
           (Route_double (nn_route_double lib (coords_double w) s), [])"
proof -
  have f: "filter (\<lambda>d. falsy_number (lat d) \<or> falsy_number (lng d)) ds = []"
    using truthy by (simp add: filter_empty_conv)
  show ?thesis
    using key ds w loop by (simp add: POST_optimize_simple_double_def f Let_def)
qed


lemma stop_at_truthy:
  "a \<noteq> 0 \<Longrightarrow> b \<noteq> 0
     \<Longrightarrow> \<not> falsy_number (lat (stop_at c a b)) \<and> \<not> falsy_number (lng (stop_at c a b))"
  by (simp add: falsy_number_def stop_at_coords)

lemma longitude_tie:
  "double_sub (Num (6755399441055745 / 4503599627370496)) (Num 100) = Num (- (197 / 2))"
  "double_sub (Num (3 / 2)) (Num 100) = Num (- (197 / 2))"
  by (simp_all add: fl_double_small fl_eval)

lemma distance_tie:
  "calculateDistance_double lib \<lparr>lat = la, lng = Num 100\<rparr>
       \<lparr>lat = lb, lng = Num (6755399441055745 / 4503599627370496)\<rparr>
     = calculateDistance_double lib \<lparr>lat = la, lng = Num 100\<rparr> \<lparr>lat = lb, lng = Num (3 / 2)\<rparr>"
  unfolding calculateDistance_double_def by (simp only: latlng.simps longitude_tie)

lemma nearest_scan_double_tie:
  assumes "calculateDistance_double lib current (coords_double b)
             = calculateDistance_double lib current (coords_double a)"
  shows "fst (nearest_scan_double lib current [a, b] 0 (0, PosInf)) = 0"
  using assms by (simp add: Let_def double_less_irrefl)

lemma nn_loop_double_tie:
  assumes "calculateDistance_double lib current (coords_double b)
             = calculateDistance_double lib current (coords_double a)"
  shows "\<exists>s. nn_loop_double lib \<lparr>currentLocation_d = current, unvisited_d = [a, b],
                                   optimized_d = [], totalDistance_d = Num 0\<rparr> = Some s
             \<and> map original_d (optimized_d s) = [a, b]"
proof -
  let ?s0 = "\<lparr>currentLocation_d = current, unvisited_d = [a, b],
              optimized_d = [], totalDistance_d = Num 0\<rparr>"
  obtain i nd where scan: "nearest_scan_double lib current [a, b] 0 (0, PosInf) = (i, nd)"
    by (cases "nearest_scan_double lib current [a, b] 0 (0, PosInf)")
  with nearest_scan_double_tie [OF assms] have i: "i = 0"
    by simp
  let ?s1 = "\<lparr>currentLocation_d = coords_double a, unvisited_d = [b],
              optimized_d = [\<lparr>original_d = a, orderIndex_d = 1,
                               distanceFromPrevious_d = Math_round_double nd\<rparr>],
              totalDistance_d = double_add (Num 0) nd\<rparr>"
  have body: "nn_body_double lib ?s0 = Some ?s1"
    unfolding nn_body_double_def by (simp add: scan i splice1_def del: nearest_scan_double.simps)
  from nn_loop_double_tour [of lib ?s1] obtain out where
    loop: "\<exists>l t. nn_loop_double lib ?s1 =
             Some \<lparr>currentLocation_d = l, unvisited_d = [],
                   optimized_d = optimized_d ?s1 @ out, totalDistance_d = t\<rparr>"
    and perm: "mset (map original_d out) = mset (unvisited_d ?s1)"
    by blast
  from perm have "mset (map original_d out) = {#b#}"
    by simp
  then have out: "map original_d out = [b]"
    by (simp only: mset_single_iff)
  from loop obtain l t where
    loop': "nn_loop_double lib ?s1 =
             Some \<lparr>currentLocation_d = l, unvisited_d = [],
                   optimized_d = optimized_d ?s1 @ out, totalDistance_d = t\<rparr>"
    by blast
  have "nn_loop_double lib ?s0 = nn_loop_double lib ?s1"
    by (subst nn_loop_double.simps) (simp add: body)
  with loop' out show ?thesis
    by simp
qed

lemma haversine_same_latitude:
  fixes la x y :: real
  assumes la: "\<bar>la * pi / 180\<bar> < pi / 2"
    and xy: "0 \<le> x" "x < y" "y \<le> 180"
    and that: "0 < R"
  shows "haversine_distance R \<lparr>lat = la, lng = lo\<rparr> \<lparr>lat = la, lng = lo - x\<rparr>
           < haversine_distance R \<lparr>lat = la, lng = lo\<rparr> \<lparr>lat = la, lng = lo - y\<rparr>"
proof -
  define c where "c = cos (la * pi / 180)"
  define u where "u = x * pi / 360"
  define v where "v = y * pi / 360"
  have c: "0 < c"
    unfolding c_def using la by (intro cos_gt_zero_pi) (simp_all add: abs_less_iff)
  have c1: "c \<le> 1"
    unfolding c_def by simp
  have uv: "0 \<le> u" "u < v" "v \<le> pi / 2"
    using xy by (simp_all add: u_def v_def field_simps)
  have su: "0 \<le> sin u"
    using uv by (intro sin_ge_zero) simp_all
  have suv: "sin u < sin v"
    using uv by (intro sin_monotone_2pi) simp_all
  have sv1: "sin v \<le> 1"
    by simp
  have hx: "hav ((lo - x) * pi / 180 - lo * pi / 180) = (sin u)\<^sup>2"
  proof -
    have "((lo - x) * pi / 180 - lo * pi / 180) / 2 = - u"
      by (simp add: u_def field_simps)
    then show ?thesis
      by (simp add: hav_def)
  qed
  have hy: "hav ((lo - y) * pi / 180 - lo * pi / 180) = (sin v)\<^sup>2"
  proof -
    have "((lo - y) * pi / 180 - lo * pi / 180) / 2 = - v"
      by (simp add: v_def field_simps)
    then show ?thesis
      by (simp add: hav_def)
  qed
  have ax: "sqrt (hav 0 + c * c * (sin u)\<^sup>2) = c * sin u"
    using c su by (simp add: hav_def power2_eq_square [symmetric] real_sqrt_mult power_mult_distrib [symmetric])
  have ay: "sqrt (hav 0 + c * c * (sin v)\<^sup>2) = c * sin v"
    using c su suv by (simp add: hav_def power2_eq_square [symmetric] real_sqrt_mult power_mult_distrib [symmetric])
  have lt: "c * sin u < c * sin v"
    using c suv by simp
  have b1: "\<bar>c * sin u\<bar> \<le> 1"
  proof -
    have "c * sin u \<le> 1 * 1"
      using c c1 su suv sv1 by (intro mult_mono) simp_all
    with c su show ?thesis
      by (simp add: abs_mult)
  qed
  have b2: "\<bar>c * sin v\<bar> \<le> 1"
  proof -
    have "c * sin v \<le> 1 * 1"
      using c c1 su suv sv1 by (intro mult_mono) simp_all
    moreover have "0 \<le> c * sin v"
      using c su suv by simp
    ultimately show ?thesis
      by simp
  qed
  have "arcsin (c * sin u) < arcsin (c * sin v)"
    using lt b1 b2 by (simp add: arcsin_less_mono)
  then show ?thesis
    using that
    by (simp add: haversine_distance_def Let_def hx hy c_def [symmetric] ax ay)
qed

text \<open>
  C5 as the specification states it fails. From the warehouse at (1, 100) the
  delivery B at (1, 1.5000000000000002) is nearer by the haversine formula than the
  delivery A at (1, 1.5); the endpoint, given \<open>[A, B]\<close>, visits A first. Both
  longitude differences round to the double -98.5, so the two computed distances are
  equal whatever the library computes (lemma \<open>nn_loop_double_tie\<close>), and the loop
  keeps the first of them.
\<close>

theorem nearest_neighbor_rounding_tie:
  "(case fst (POST_optimize_simple_double rounding_libm example_env
               (Some \<lparr>deliveries =
                        Deliveries [stop_at ''A'' 1 (3 / 2),
                                    stop_at ''B'' 1 (6755399441055745 / 4503599627370496)],
                      warehouseLocation = Some \<lparr>lat = Some 1, lng = Some 100\<rparr>,
                      requestStartTime = None\<rparr>)) of
      Route_double r \<Rightarrow> map (\<lambda>od. codigo (original_d od)) (optimizedDeliveries_d r) = [''A'', ''B'']
    | Error_double status err \<Rightarrow> False)
   \<and> haversine_distance 6371000 \<lparr>lat = 1, lng = 100\<rparr>
         \<lparr>lat = 1, lng = 6755399441055745 / 4503599627370496\<rparr>
       < haversine_distance 6371000 \<lparr>lat = 1, lng = 100\<rparr> \<lparr>lat = 1, lng = 3 / 2\<rparr>"
proof
  let ?a = "stop_at ''A'' 1 (3 / 2)"
  let ?b = "stop_at ''B'' 1 (6755399441055745 / 4503599627370496)"
  let ?w = "\<lparr>lat = Some 1, lng = Some 100\<rparr> :: real option latlng"
  let ?body = "\<lparr>deliveries = Deliveries [?a, ?b], warehouseLocation = Some ?w,
                requestStartTime = None\<rparr>"
  have cw: "coords_double ?w = \<lparr>lat = Num 1, lng = Num 100\<rparr>"
    by (simp add: coords_double_def to_double_def)
  have ca: "coords_double ?a = \<lparr>lat = Num 1, lng = Num (3 / 2)\<rparr>"
    by (simp add: coords_double_def to_double_def stop_at_coords)
  have cb: "coords_double ?b = \<lparr>lat = Num 1, lng = Num (6755399441055745 / 4503599627370496)\<rparr>"
    by (simp add: coords_double_def to_double_def stop_at_coords)
  have tie: "calculateDistance_double rounding_libm (coords_double ?w) (coords_double ?b)
               = calculateDistance_double rounding_libm (coords_double ?w) (coords_double ?a)"
    unfolding cw ca cb by (rule distance_tie)
  from nn_loop_double_tie [OF tie] obtain s where
    loop: "nn_loop_double rounding_libm
             \<lparr>currentLocation_d = coords_double ?w, unvisited_d = [?a, ?b],
              optimized_d = [], totalDistance_d = Num 0\<rparr> = Some s"
    and order: "map original_d (optimized_d s) = [?a, ?b]"
    by (elim exE conjE) (rule that; assumption)
  have key: "\<not> falsy_string (GOOGLE_MAPS_API_KEY example_env)"
    by (simp add: example_env_def falsy_string_def)
  have truthy: "\<forall>d \<in> set [?a, ?b]. \<not> falsy_number (lat d) \<and> \<not> falsy_number (lng d)"
    by (simp add: stop_at_truthy)
  have w: "\<not> falsy_number (lat ?w)" "\<not> falsy_number (lng ?w)"
    by (simp_all add: falsy_number_def)
  have "POST_optimize_simple_double rounding_libm example_env (Some ?body) =
           (Route_double (nn_route_double rounding_libm (coords_double ?w) s), [])"
    by (rule POST_optimize_simple_double_valid [OF key _ _ truthy _ w loop]) simp_all
  moreover have "map (\<lambda>od. codigo (original_d od)) (optimized_d s) = [''A'', ''B'']"
  proof -
    have "map (\<lambda>od. codigo (original_d od)) (optimized_d s)
            = map codigo (map original_d (optimized_d s))"
      by (simp add: comp_def)
    then show ?thesis
      by (simp add: order stop_at_def)
  qed
  ultimately show "case fst (POST_optimize_simple_double rounding_libm example_env (Some ?body)) of
      Route_double r \<Rightarrow> map (\<lambda>od. codigo (original_d od)) (optimizedDeliveries_d r) = [''A'', ''B'']
    | Error_double status err \<Rightarrow> False"
    by (simp add: nn_route_double_def Let_def)
  have "haversine_distance 6371000 \<lparr>lat = 1, lng = 100\<rparr>
          \<lparr>lat = 1, lng = 100 - (100 - 6755399441055745 / 4503599627370496)\<rparr>
       < haversine_distance 6371000 \<lparr>lat = 1, lng = 100\<rparr> \<lparr>lat = 1, lng = 100 - 197 / 2\<rparr>"
  proof (rule haversine_same_latitude)
    have "(1::real) * pi / 180 < pi / 2"
      using pi_gt_zero by simp
    then show "\<bar>(1::real) * pi / 180\<bar> < pi / 2"
      using pi_gt_zero by (simp add: abs_if)
  qed simp_all
  then show "haversine_distance 6371000 \<lparr>lat = 1, lng = 100\<rparr>
         \<lparr>lat = 1, lng = 6755399441055745 / 4503599627370496\<rparr>
       < haversine_distance 6371000 \<lparr>lat = 1, lng = 100\<rparr> \<lparr>lat = 1, lng = 3 / 2\<rparr>"
    by simp
qed

text \<open>
  C5, amended. At every iteration of the loop (a state reached from the first one,
  with deliveries left) the body appends the delivery at an index \<open>i\<close> of
  \<open>unvisited\<close> that \<open>nearest_found\<close> describes: its distance from the current
  location as \<open>calculateDistance\<close> computes it in double precision (the haversine
  formula with radius 6371000, each operation rounded) is a number, no unvisited
  delivery has a smaller computed distance, and every earlier unvisited delivery whose
  computed distance is a number is strictly farther; or no computed distance is a
  number and \<open>i = 0\<close>. \<open>unvisited\<close> is a subsequence of the input, so "earlier" is the
  input order. The loop is a function of its input and of the library, which is its
  determinism.
\<close>

theorem nearest_neighbor_selection:
  assumes reach: "nn_reachable_double lib
                    \<lparr>currentLocation_d = warehouse, unvisited_d = ds,
                     optimized_d = [], totalDistance_d = Num 0\<rparr> s"
    and more: "0 < length (unvisited_d s)"
  shows "\<exists>i nd. i < length (unvisited_d s)
           \<and> nn_body_double lib s =
               Some \<lparr>currentLocation_d = coords_double (unvisited_d s ! i),
                     unvisited_d = splice1 (unvisited_d s) i,
                     optimized_d = optimized_d s @
                       [\<lparr>original_d = unvisited_d s ! i,
                         orderIndex_d = length (optimized_d s) + 1,
                         distanceFromPrevious_d = Math_round_double nd\<rparr>],
                     totalDistance_d = double_add (totalDistance_d s) nd\<rparr>
           \<and> nearest_found lib (currentLocation_d s) (unvisited_d s) (i, nd)
           \<and> subseq (unvisited_d s) ds
           \<and> nn_loop_double lib s =
               nn_loop_double lib \<lparr>currentLocation_d = warehouse, unvisited_d = ds,
                                    optimized_d = [], totalDistance_d = Num 0\<rparr>"
proof -
  let ?s0 = "\<lparr>currentLocation_d = warehouse, unvisited_d = ds,
              optimized_d = [], totalDistance_d = Num 0\<rparr>"
  have sub: "subseq (unvisited_d s) ds" and same: "nn_loop_double lib s = nn_loop_double lib ?s0"
    using nn_reachable_double_inv [OF reach] by simp_all
  from more have ne: "unvisited_d s \<noteq> []"
    by auto
  from nn_body_double_found [OF ne, of lib] obtain i nd where
    i: "i < length (unvisited_d s)" and
    found: "nearest_found lib (currentLocation_d s) (unvisited_d s) (i, nd)" and
    body: "nn_body_double lib s =
               Some \<lparr>currentLocation_d = coords_double (unvisited_d s ! i),
                     unvisited_d = splice1 (unvisited_d s) i,
                     optimized_d = optimized_d s @
                       [\<lparr>original_d = unvisited_d s ! i,
                         orderIndex_d = length (optimized_d s) + 1,
                         distanceFromPrevious_d = Math_round_double nd\<rparr>],
                     totalDistance_d = double_add (totalDistance_d s) nd\<rparr>"
    by blast
  show ?thesis
  proof (intro exI conjI)
    show "i < length (unvisited_d s)" by (rule i)
    show "nn_body_double lib s =
               Some \<lparr>currentLocation_d = coords_double (unvisited_d s ! i),
                     unvisited_d = splice1 (unvisited_d s) i,
                     optimized_d = optimized_d s @
                       [\<lparr>original_d = unvisited_d s ! i,
                         orderIndex_d = length (optimized_d s) + 1,
                         distanceFromPrevious_d = Math_round_double nd\<rparr>],
                     totalDistance_d = double_add (totalDistance_d s) nd\<rparr>"
      by (rule body)
    show "nearest_found lib (currentLocation_d s) (unvisited_d s) (i, nd)" by (rule found)
    show "subseq (unvisited_d s) ds" by (rule sub)
    show "nn_loop_double lib s = nn_loop_double lib ?s0" by (rule same)
  qed
qed

theorem nearest_neighbor_selection_witness:
  "\<exists>i nd. i < length [stop_at ''A'' 1 3, stop_at ''B'' 1 2]
      \<and> nearest_found rounding_libm \<lparr>lat = Num 1, lng = Num 1\<rparr>
          [stop_at ''A'' 1 3, stop_at ''B'' 1 2] (i, nd)
      \<and> map original_d
          (optimized_d
             (the (nn_body_double rounding_libm
                     \<lparr>currentLocation_d = \<lparr>lat = Num 1, lng = Num 1\<rparr>,
                      unvisited_d = [stop_at ''A'' 1 3, stop_at ''B'' 1 2],
                      optimized_d = [], totalDistance_d = Num 0\<rparr>)))
          = [[stop_at ''A'' 1 3, stop_at ''B'' 1 2] ! i]"
proof -
  let ?s0 = "\<lparr>currentLocation_d = \<lparr>lat = Num 1, lng = Num 1\<rparr>,
              unvisited_d = [stop_at ''A'' 1 3, stop_at ''B'' 1 2],
              optimized_d = [], totalDistance_d = Num 0\<rparr>"
  have reach: "nn_reachable_double rounding_libm ?s0 ?s0"
    by (rule nn_reachable_double.start)
  have more: "0 < length (unvisited_d ?s0)"
    by simp
  from nearest_neighbor_selection [OF reach more] obtain i nd where
    "i < length (unvisited_d ?s0)"
    "nn_body_double rounding_libm ?s0 =
               Some \<lparr>currentLocation_d = coords_double (unvisited_d ?s0 ! i),
                     unvisited_d = splice1 (unvisited_d ?s0) i,
                     optimized_d = optimized_d ?s0 @
                       [\<lparr>original_d = unvisited_d ?s0 ! i,
                         orderIndex_d = length (optimized_d ?s0) + 1,
                         distanceFromPrevious_d = Math_round_double nd\<rparr>],
                     totalDistance_d = double_add (totalDistance_d ?s0) nd\<rparr>"
    "nearest_found rounding_libm (currentLocation_d ?s0) (unvisited_d ?s0) (i, nd)"
    by (elim exE conjE) (rule that; assumption)
  then show ?thesis
    by (intro exI [of _ i] exI [of _ nd]) simp
qed









section \<open>Base64url\<close>

lemma sextet_bounds:
  fixes x y z :: nat
  assumes "x < 256" and "y < 256" and "z < 256"
  shows "x div 4 < 64" "(x mod 4) * 16 < 64" "(x mod 4) * 16 + y div 16 < 64"
    "(y mod 16) * 4 < 64" "(y mod 16) * 4 + z div 64 < 64" "z mod 64 < 64"
proof -
  have "x mod 4 < 4" "y mod 16 < 16" "y div 16 < 16" "z div 64 < 4"
    using assms by (simp_all add: div_less_iff_less_mult)
  then show "x div 4 < 64" "(x mod 4) * 16 < 64" "(x mod 4) * 16 + y div 16 < 64"
    "(y mod 16) * 4 < 64" "(y mod 16) * 4 + z div 64 < 64" "z mod 64 < 64"
    using assms by (simp_all add: div_less_iff_less_mult)
qed

lemma sextet_bytes:
  fixes x y z :: nat
  assumes "x < 256" and "y < 256" and "z < 256"
  shows "(x div 4) * 4 + ((x mod 4) * 16) div 16 = x"
    and "(x div 4) * 4 + ((x mod 4) * 16 + y div 16) div 16 = x"
    and "(((x mod 4) * 16 + y div 16) mod 16) * 16 + ((y mod 16) * 4) div 4 = y"
    and "(((x mod 4) * 16 + y div 16) mod 16) * 16 + ((y mod 16) * 4 + z div 64) div 4 = y"
    and "(((y mod 16) * 4 + z div 64) mod 4) * 64 + z mod 64 = z"
proof -
  have a: "y div 16 < 16" "z div 64 < 4"
    using assms by (simp_all add: div_less_iff_less_mult)
  show "(x div 4) * 4 + ((x mod 4) * 16) div 16 = x"
    by simp
  show "(x div 4) * 4 + ((x mod 4) * 16 + y div 16) div 16 = x"
    using a by simp
  show "(((x mod 4) * 16 + y div 16) mod 16) * 16 + ((y mod 16) * 4) div 4 = y"
    using a by simp
  show "(((x mod 4) * 16 + y div 16) mod 16) * 16 + ((y mod 16) * 4 + z div 64) div 4 = y"
    using a by simp
  show "(((y mod 16) * 4 + z div 64) mod 4) * 64 + z mod 64 = z"
    using a by simp
qed


lemma base64_char_table: "map (\<lambda>n. of_char (base64_char n)) [0..<64] = map base64_code [0..<64]"
  by (simp add: base64_char_def base64_alphabet_def base64_code_def upt_rec)

lemma of_char_base64_char:
  assumes "n < 64"
  shows "of_char (base64_char n) = base64_code n"
proof -
  have "map (\<lambda>n. of_char (base64_char n)) [0..<64] ! n = map base64_code [0..<64] ! n"
    by (simp only: base64_char_table)
  then show ?thesis
    using assms by (simp del: upt_Suc)
qed

lemma of_char_url_char:
  assumes "n < 64"
  shows "of_char (url_char n) =
     (if n < 26 then 65 + n else if n < 52 then 71 + n else if n < 62 then n - 4
      else if n = 62 then 45 else (95::nat))"
proof -
  have eq: "c = d \<longleftrightarrow> (of_char c :: nat) = of_char d" for c d :: char
    by simp
  show ?thesis
    using assms unfolding url_char_def Let_def
    by (simp add: eq of_char_base64_char base64_code_def del: of_char_eq_iff) arith
qed

lemma base64url_value_url_char: "n < 64 \<Longrightarrow> base64url_value (url_char n) = Some n"
  by (simp add: base64url_value_def of_char_url_char Let_def) arith

lemma url_char_not_pad: "n < 64 \<Longrightarrow> url_char n \<noteq> CHR ''=''"
proof
  assume "n < 64" and "url_char n = CHR ''=''"
  then have "(of_char (url_char n) :: nat) = of_char CHR ''=''"
    by simp
  with \<open>n < 64\<close> show False
    by (simp add: of_char_url_char split: if_splits)
qed

lemma base64url_chunks:
  "base64url [] = []"
  "base64url [a] = [url_char (of_char a div 4), url_char ((of_char a mod 4) * 16)]"
  "base64url [a, b] =
     [url_char (of_char a div 4), url_char ((of_char a mod 4) * 16 + of_char b div 16),
      url_char ((of_char b mod 16) * 4)]"
  "base64url (a # b # c # rest) =
     [url_char (of_char a div 4), url_char ((of_char a mod 4) * 16 + of_char b div 16),
      url_char ((of_char b mod 16) * 4 + of_char c div 64), url_char (of_char c mod 64)]
     @ base64url rest"
proof -
  have u: "(if (if x = CHR ''+'' then CHR ''-'' else x) = CHR ''/'' then CHR ''_''
            else (if x = CHR ''+'' then CHR ''-'' else x)) = url_char n"
    if "x = base64_char n" for x n
    using that by (simp add: url_char_def Let_def)
  have b: "(of_char a :: nat) div 4 < 64" "(of_char a mod 4) * 16 < (64::nat)"
    "(of_char a mod 4) * 16 + (of_char b :: nat) div 16 < 64"
    "(of_char b mod 16) * 4 < (64::nat)"
    "(of_char b mod 16) * 4 + (of_char c :: nat) div 64 < 64"
    "(of_char c :: nat) mod 64 < 64" for a b c :: char
    using sextet_bounds [OF nat_of_char_less_256 [of a] nat_of_char_less_256 [of b]
        nat_of_char_less_256 [of c]]
    by blast+
  show "base64url [] = []"
    by (simp add: base64url_def replace_all_def remove_all_def)
  show "base64url [a] = [url_char (of_char a div 4), url_char ((of_char a mod 4) * 16)]"
    using url_char_not_pad [OF b(1), of a] url_char_not_pad [OF b(2), of a]
    by (simp add: base64url_def replace_all_def remove_all_def Let_def u)
  show "base64url [a, b] =
     [url_char (of_char a div 4), url_char ((of_char a mod 4) * 16 + of_char b div 16),
      url_char ((of_char b mod 16) * 4)]"
    using url_char_not_pad [OF b(1), of a] url_char_not_pad [OF b(3), of a b]
      url_char_not_pad [OF b(4), of b]
    by (simp add: base64url_def replace_all_def remove_all_def Let_def u)
  show "base64url (a # b # c # rest) =
     [url_char (of_char a div 4), url_char ((of_char a mod 4) * 16 + of_char b div 16),
      url_char ((of_char b mod 16) * 4 + of_char c div 64), url_char (of_char c mod 64)]
     @ base64url rest"
    using url_char_not_pad [OF b(1), of a] url_char_not_pad [OF b(3), of a b]
      url_char_not_pad [OF b(5), of b c] url_char_not_pad [OF b(6), of c]
    by (simp add: base64url_def replace_all_def remove_all_def Let_def u)
qed

lemma split_on_append:
  "c \<notin> set a \<Longrightarrow> split_on c (a @ c # rest) = a # split_on c rest"
  by (induction a) auto

lemma split_on_none: "c \<notin> set a \<Longrightarrow> split_on c a = [a]"
  by (induction a) auto

lemma base64url_decode_base64url: "base64url_decode (base64url bytes) = Some bytes"
proof (induction bytes rule: base64.induct)
  case 1
  show ?case by (simp add: base64url_chunks)
next
  case (2 a)
  note b = sextet_bounds [OF nat_of_char_less_256 [of a] nat_of_char_less_256 [of a]
      nat_of_char_less_256 [of a]]
  show ?case
    by (simp add: base64url_chunks base64url_value_url_char b)
next
  case (3 a b)
  note bd = sextet_bounds [OF nat_of_char_less_256 [of a] nat_of_char_less_256 [of b]
      nat_of_char_less_256 [of b]]
  note eqs = sextet_bytes [OF nat_of_char_less_256 [of a] nat_of_char_less_256 [of b]
      nat_of_char_less_256 [of b]]
  show ?case
    by (simp only: base64url_chunks base64url_decode.simps base64url_value_url_char bd eqs
        prod.case option.case char_of_char)
next
  case (4 a b c rest)
  note bd = sextet_bounds [OF nat_of_char_less_256 [of a] nat_of_char_less_256 [of b]
      nat_of_char_less_256 [of c]]
  note eqs = sextet_bytes [OF nat_of_char_less_256 [of a] nat_of_char_less_256 [of b]
      nat_of_char_less_256 [of c]]
  show ?case
    by (simp only: base64url_chunks base64url_decode.simps base64url_value_url_char bd eqs
        prod.case option.case char_of_char append.simps "4.IH")
qed

lemma valid_base64url_base64url: "valid_base64url (base64url bytes)"
proof (induction bytes rule: base64.induct)
  case 1
  show ?case by (simp add: base64url_chunks valid_base64url_def)
next
  case (2 a)
  note b = sextet_bounds [OF nat_of_char_less_256 [of a] nat_of_char_less_256 [of a]
      nat_of_char_less_256 [of a]]
  show ?case
    by (simp add: base64url_chunks valid_base64url_def base64url_value_url_char b)
next
  case (3 a b)
  note bd = sextet_bounds [OF nat_of_char_less_256 [of a] nat_of_char_less_256 [of b]
      nat_of_char_less_256 [of b]]
  show ?case
    by (simp add: base64url_chunks valid_base64url_def base64url_value_url_char bd)
next
  case (4 a b c rest)
  note bd = sextet_bounds [OF nat_of_char_less_256 [of a] nat_of_char_less_256 [of b]
      nat_of_char_less_256 [of c]]
  from "4.IH" show ?case
    by (simp add: base64url_chunks valid_base64url_def base64url_value_url_char bd)
qed

lemma valid_base64url_excludes:
  assumes "valid_base64url s"
  shows "CHR ''+'' \<notin> set s" "CHR ''/'' \<notin> set s" "CHR ''='' \<notin> set s" "CHR ''.'' \<notin> set s"
proof -
  have "base64url_value CHR ''+'' = None" "base64url_value CHR ''/'' = None"
    "base64url_value CHR ''='' = None" "base64url_value CHR ''.'' = None"
    by (simp_all add: base64url_value_def)
  with assms show "CHR ''+'' \<notin> set s" "CHR ''/'' \<notin> set s" "CHR ''='' \<notin> set s" "CHR ''.'' \<notin> set s"
    by (auto simp: valid_base64url_def list_all_iff)
qed

section \<open>Timestamps\<close>

lemma decimal_digit_not_dot: "decimal_digit (n mod 10) \<noteq> CHR ''.''"
proof -
  have "n mod 10 < length ''0123456789''"
    by simp
  then have "''0123456789'' ! (n mod 10) \<in> set ''0123456789''"
    by (rule nth_mem)
  then show ?thesis
    unfolding decimal_digit_def by auto
qed

lemma pad_no_dot: "CHR ''.'' \<notin> set (pad k n)"
proof (induction k arbitrary: n)
  case 0
  show ?case by simp
next
  case (Suc k)
  from Suc [of "n div 10"] decimal_digit_not_dot [of n] show ?case
    by simp
qed

lemma year_text_no_dot: "CHR ''.'' \<notin> set (year_text y)"
  by (simp add: year_text_def pad_no_dot)

lemma ms_to_seconds:
  fixes t :: int
  shows "t div 86400000 = (t div 1000) div 86400"
    and "(t mod 86400000) div 1000 = (t div 1000) mod 86400"
    and "(t mod 86400000) div 3600000 = ((t div 1000) mod 86400) div 3600"
    and "(t mod 86400000) div 60000 = ((t div 1000) mod 86400) div 60"
proof -
  show a: "t div 86400000 = (t div 1000) div 86400"
    using zdiv_zmult2_eq [of 86400 t 1000] by simp
  have "t mod (1000 * 86400) = 1000 * (t div 1000 mod 86400) + t mod 1000"
    by (rule zmod_zmult2_eq) simp
  then have m: "t mod 86400000 = 1000 * (t div 1000 mod 86400) + t mod 1000"
    by simp
  show b: "(t mod 86400000) div 1000 = (t div 1000) mod 86400"
    unfolding m by simp
  show "(t mod 86400000) div 3600000 = ((t div 1000) mod 86400) div 3600"
    using zdiv_zmult2_eq [of 3600 "t mod 86400000" 1000] b by simp
  show "(t mod 86400000) div 60000 = ((t div 1000) mod 86400) div 60"
    using zdiv_zmult2_eq [of 60 "t mod 86400000" 1000] b by simp
qed

lemma formatTimestamp_whole_second:
  "formatTimestamp (Some t) = Some (whole_second_timestamp (t div 1000))"
proof -
  obtain y m d where c: "civil_from_days ((t div 1000) div 86400) = (y, m, d)"
    by (cases "civil_from_days ((t div 1000) div 86400)")
  let ?secs = "(t div 1000) mod 86400"
  let ?front = "year_text y @ ''-'' @ pad 2 (nat m) @ ''-'' @ pad 2 (nat d) @ ''T''
             @ pad 2 (nat (?secs div 3600)) @ '':'' @ pad 2 (nat (?secs div 60 mod 60)) @ '':''
             @ pad 2 (nat (?secs mod 60))"
  have iso: "Date_toISOString t = ?front @ CHR ''.'' # (pad 3 (nat ((t mod 86400000) mod 1000)) @ ''Z'')"
    by (simp add: Date_toISOString_def Let_def ms_to_seconds c)
  have nodot: "CHR ''.'' \<notin> set ?front"
    by (simp add: pad_no_dot year_text_no_dot)
  have "split_on CHR ''.'' (Date_toISOString t)
          = ?front # split_on CHR ''.'' (pad 3 (nat ((t mod 86400000) mod 1000)) @ ''Z'')"
    unfolding iso using nodot by (rule split_on_append)
  then have "formatTimestamp (Some t) = Some (?front @ ''Z'')"
    by (simp add: formatTimestamp_def)
  also have "?front @ ''Z'' = whole_second_timestamp (t div 1000)"
    by (simp add: whole_second_timestamp_def Let_def c)
  finally show ?thesis .
qed


lemma formatTimestamp_truncates:
  "formatTimestamp (Some t) = formatTimestamp (Some (1000 * (t div 1000)))"
  by (simp add: formatTimestamp_whole_second)


lemma token_calls:
  assumes "getGoogleCloudAccessToken w e = (r, calls)"
  shows "calls = [] \<or> (\<exists>jwt. calls = [Token_call jwt])"
  using assms
  by (auto simp: getGoogleCloudAccessToken_def Let_def
      split: option.splits token_reply.splits)

lemma token_obtained_calls:
  assumes "getGoogleCloudAccessToken w e = (Some tok, calls)"
  shows "\<exists>jwt. calls = [Token_call jwt]"
  using assms
  by (auto simp: getGoogleCloudAccessToken_def Let_def
      split: option.splits token_reply.splits)

lemma POST_optimize_calls:
  assumes "c \<in> set (snd (POST_optimize w e request))"
  shows "(\<exists>jwt. c = Token_call jwt)
         \<or> (\<exists>projectId accessToken calls body ds warehouse.
               getGoogleCloudProjectId e = Some projectId
               \<and> getGoogleCloudAccessToken w e = (Some accessToken, calls)
               \<and> request = Some body \<and> deliveries body = Deliveries ds \<and> ds \<noteq> []
               \<and> (\<forall>d \<in> set ds. \<not> falsy_number (lat d) \<and> \<not> falsy_number (lng d))
               \<and> warehouseLocation body = Some warehouse
               \<and> \<not> falsy_number (lat warehouse) \<and> \<not> falsy_number (lng warehouse)
               \<and> optimize_call_of w projectId accessToken body ds warehouse = Some c)"
proof (cases "getGoogleCloudProjectId e")
  case None
  with assms show ?thesis
    by (simp add: POST_optimize_def)
next
  case (Some projectId)
  obtain r calls where tok: "getGoogleCloudAccessToken w e = (r, calls)"
    by (cases "getGoogleCloudAccessToken w e")
  from token_calls [OF tok] have calls: "c \<in> set calls \<Longrightarrow> \<exists>jwt. c = Token_call jwt"
    by auto
  show ?thesis
  proof (cases "c \<in> set calls")
    case True
    with calls show ?thesis by blast
  next
    case False
    from assms False have "\<exists>accessToken body ds warehouse.
               r = Some accessToken
               \<and> request = Some body \<and> deliveries body = Deliveries ds \<and> ds \<noteq> []
               \<and> filter (\<lambda>d. falsy_number (lat d) \<or> falsy_number (lng d)) ds = []
               \<and> warehouseLocation body = Some warehouse
               \<and> \<not> falsy_number (lat warehouse) \<and> \<not> falsy_number (lng warehouse)
               \<and> optimize_call_of w projectId accessToken body ds warehouse = Some c"
      unfolding POST_optimize_def Some tok optimize_call_of_def
      by (auto simp add: Let_def
          split: option.splits deliveries_field.splits if_splits optimize_reply.splits list.splits)
    then show ?thesis
      using Some tok by (fastforce simp: filter_empty_conv)
  qed
qed




lemma example_token:
  "\<exists>jwt. getGoogleCloudAccessToken example_world example_env = (Some (Some ''token''), [Token_call jwt])"
  by (simp add: getGoogleCloudAccessToken_def getServiceAccountCredentials_def example_env_def
      example_world_def createJWT_def Let_def)

lemma example_project: "getGoogleCloudProjectId example_env = Some ''project''"
  by (simp add: getGoogleCloudProjectId_def example_env_def falsy_string_def)

section \<open>The signed assertion has three base64url segments\<close>

lemma header_segment:
  "base64url (JSON_stringify [(''alg'', JString ''RS256''), (''typ'', JString ''JWT'')])
     = ''eyJhbGciOiJSUzI1NiIsInR5cCI6IkpXVCJ9''"
  by (simp add: JSON_stringify_def QuoteJSONString_def QuoteJSONString_char_def
        base64url_def replace_all_def remove_all_def base64_char_def base64_alphabet_def)

text \<open>
  C3. Whenever the RSA-SHA256 primitive signs with the credential's key,
  \<open>createJWT\<close> returns \<open>header.payload.signature\<close>: splitting at \<open>.\<close> gives exactly
  these three segments; each consists of base64url characters only, so none holds
  \<open>+\<close>, \<open>/\<close> or \<open>=\<close>; the header decodes to the JSON text of
  \<open>{alg: RS256, typ: JWT}\<close>; the payload decodes to the JSON text of the object with
  \<open>iss\<close> the client email, the given \<open>scope\<close>, \<open>aud\<close> the token endpoint,
  \<open>exp\<close> and \<open>iat\<close>, where \<open>exp - iat = 3600\<close>; and the signature segment decodes
  to the signature of \<open>header.payload\<close>.
\<close>

theorem createJWT_token:
  assumes "\<forall>data. rsa_sha256_sign w (private_key sa) data \<noteq> None"
  shows "\<exists>header payload signature sig.
           createJWT w sa scope = Some (header @ ''.'' @ payload @ ''.'' @ signature)
           \<and> split_on CHR ''.'' (header @ ''.'' @ payload @ ''.'' @ signature)
               = [header, payload, signature]
           \<and> valid_base64url header \<and> valid_base64url payload \<and> valid_base64url signature
           \<and> set (header @ payload @ signature) \<inter> {CHR ''+'', CHR ''/'', CHR ''=''} = {}
           \<and> base64url_decode header
               = Some (JSON_stringify [(''alg'', JString ''RS256''), (''typ'', JString ''JWT'')])
           \<and> base64url_decode payload
               = Some (JSON_stringify
                   [(''iss'', JString (client_email sa)),
                    (''scope'', JString scope),
                    (''aud'', JString ''https://oauth2.googleapis.com/token''),
                    (''exp'', JNumber (Date_now w div 1000 + 3600)),
                    (''iat'', JNumber (Date_now w div 1000))])
           \<and> (Date_now w div 1000 + 3600) - Date_now w div 1000 = 3600
           \<and> rsa_sha256_sign w (private_key sa) (header @ ''.'' @ payload) = Some sig
           \<and> base64url_decode signature = Some sig"
proof -
  define header where
    "header = base64url (JSON_stringify [(''alg'', JString ''RS256''), (''typ'', JString ''JWT'')])"
  define payload where
    "payload = base64url (JSON_stringify
                   [(''iss'', JString (client_email sa)),
                    (''scope'', JString scope),
                    (''aud'', JString ''https://oauth2.googleapis.com/token''),
                    (''exp'', JNumber (Date_now w div 1000 + 3600)),
                    (''iat'', JNumber (Date_now w div 1000))])"
  from assms obtain sig where
    sig: "rsa_sha256_sign w (private_key sa) (header @ ''.'' @ payload) = Some sig"
    by (meson option.exhaust)
  define signature where "signature = base64url sig"
  have jwt: "createJWT w sa scope = Some (header @ ''.'' @ payload @ ''.'' @ signature)"
    using sig unfolding header_def payload_def signature_def
    by (simp add: createJWT_def Let_def base64url_def)
  have v: "valid_base64url header" "valid_base64url payload" "valid_base64url signature"
    by (simp_all add: header_def payload_def signature_def valid_base64url_base64url)
  note ex = valid_base64url_excludes [OF v(1)] valid_base64url_excludes [OF v(2)]
    valid_base64url_excludes [OF v(3)]
  have split: "split_on CHR ''.'' (header @ ''.'' @ payload @ ''.'' @ signature)
               = [header, payload, signature]"
    using ex by (simp add: split_on_append split_on_none)
  have none: "set (header @ payload @ signature) \<inter> {CHR ''+'', CHR ''/'', CHR ''=''} = {}"
    using ex by auto
  have dec: "base64url_decode header
               = Some (JSON_stringify [(''alg'', JString ''RS256''), (''typ'', JString ''JWT'')])"
    "base64url_decode payload
               = Some (JSON_stringify
                   [(''iss'', JString (client_email sa)),
                    (''scope'', JString scope),
                    (''aud'', JString ''https://oauth2.googleapis.com/token''),
                    (''exp'', JNumber (Date_now w div 1000 + 3600)),
                    (''iat'', JNumber (Date_now w div 1000))])"
    "base64url_decode signature = Some sig"
    by (simp_all only: header_def payload_def signature_def base64url_decode_base64url)
  show ?thesis
    using jwt split v none dec sig by (intro exI [of _ header] exI [of _ payload]
        exI [of _ signature] exI [of _ sig]) simp
qed


theorem createJWT_token_witness:
  "\<exists>header payload signature.
     createJWT example_world example_account ''scope''
       = Some (header @ ''.'' @ payload @ ''.'' @ signature)
     \<and> split_on CHR ''.'' (header @ ''.'' @ payload @ ''.'' @ signature)
         = [header, payload, signature]
     \<and> base64url_decode header
         = Some (JSON_stringify [(''alg'', JString ''RS256''), (''typ'', JString ''JWT'')])
     \<and> base64url_decode signature = Some ''signature''"
proof -
  have h: "\<forall>data. rsa_sha256_sign example_world (private_key example_account) data \<noteq> None"
    by (simp add: example_world_def)
  from createJWT_token [OF h, of "''scope''"]
  obtain header payload signature sig where
    jwt: "createJWT example_world example_account ''scope''
       = Some (header @ ''.'' @ payload @ ''.'' @ signature)" and
    split: "split_on CHR ''.'' (header @ ''.'' @ payload @ ''.'' @ signature)
               = [header, payload, signature]" and
    dh: "base64url_decode header
         = Some (JSON_stringify [(''alg'', JString ''RS256''), (''typ'', JString ''JWT'')])" and
    s: "rsa_sha256_sign example_world (private_key example_account) (header @ ''.'' @ payload)
          = Some sig" and
    ds: "base64url_decode signature = Some sig"
    by (elim exE conjE)
  from s have sig: "sig = ''signature''"
    by (simp add: example_world_def)
  show ?thesis
  proof (intro exI conjI)
    show "createJWT example_world example_account ''scope''
       = Some (header @ ''.'' @ payload @ ''.'' @ signature)" by (rule jwt)
    show "split_on CHR ''.'' (header @ ''.'' @ payload @ ''.'' @ signature)
               = [header, payload, signature]" by (rule split)
    show "base64url_decode header
         = Some (JSON_stringify [(''alg'', JString ''RS256''), (''typ'', JString ''JWT'')])"
      by (rule dh)
    show "base64url_decode signature = Some ''signature''"
      using ds sig by (simp only:)
  qed
qed


section \<open>The time window of the authenticated request\<close>









section \<open>Validation in the two endpoints\<close>

lemma POST_optimize_unauthorised:
  assumes "getGoogleCloudProjectId e = None \<or> fst (getGoogleCloudAccessToken w e) = None"
  shows "fst (POST_optimize w e request) = Error_response 500 InternalError"
proof (cases "getGoogleCloudProjectId e")
  case None
  then show ?thesis
    by (simp add: POST_optimize_def)
next
  case (Some projectId)
  with assms have "fst (getGoogleCloudAccessToken w e) = None"
    by simp
  then obtain calls where "getGoogleCloudAccessToken w e = (None, calls)"
    by (cases "getGoogleCloudAccessToken w e") simp
  with Some show ?thesis
    by (simp add: POST_optimize_def)
qed


text \<open>
  C1 as the specification states it fails on the authenticated path: with an empty
  list the handler answers 400 only after the call to the token endpoint has been
  made, and without credentials both handlers answer 500.
\<close>

theorem empty_deliveries_after_token_call:
  "fst (POST_optimize example_world example_env
          (Some \<lparr>deliveries = Deliveries [], warehouseLocation = None, requestStartTime = None\<rparr>))
     = Error_response 400 DeliveriesEmpty
   \<and> snd (POST_optimize example_world example_env
          (Some \<lparr>deliveries = Deliveries [], warehouseLocation = None, requestStartTime = None\<rparr>))
     \<noteq> []
   \<and> fst (POST_optimize example_world unconfigured_env
          (Some \<lparr>deliveries = Deliveries [], warehouseLocation = None, requestStartTime = None\<rparr>))
     = Error_response 500 InternalError
   \<and> fst (POST_optimize_simple unconfigured_env
          (Some \<lparr>deliveries = Deliveries [], warehouseLocation = None, requestStartTime = None\<rparr>))
     = Some (Error_response 500 InternalError)"
proof -
  obtain jwt where tok:
    "getGoogleCloudAccessToken example_world example_env = (Some (Some ''token''), [Token_call jwt])"
    using example_token by (elim exE)
  have p: "getGoogleCloudProjectId unconfigured_env = None"
    by (simp add: getGoogleCloudProjectId_def unconfigured_env_def falsy_string_def)
  have k: "falsy_string (GOOGLE_MAPS_API_KEY unconfigured_env)"
    by (simp add: unconfigured_env_def falsy_string_def)
  show ?thesis
    by (simp add: POST_optimize_def example_project tok p POST_optimize_simple_def k)
qed


text \<open>
  C1, amended. For every request whose deliveries list is empty: the
  nearest-neighbour handler answers 400 and makes no network call when
  \<open>GOOGLE_MAPS_API_KEY\<close> is set, and answers 500 (still without a call) when it is
  not; the authenticated handler answers 400 once the project id is set and the
  access token has been obtained, its only network call being the one to the token
  endpoint, and answers 500 when the project id is missing or no token is obtained;
  it never calls the optimization endpoint.
\<close>

theorem empty_deliveries_rejected:
  assumes "deliveries body = Deliveries []"
  shows "(\<not> falsy_string (GOOGLE_MAPS_API_KEY e)
            \<longrightarrow> POST_optimize_simple e (Some body)
                  = (Some (Error_response 400 DeliveriesRequiredNonEmpty), []))
         \<and> (falsy_string (GOOGLE_MAPS_API_KEY e)
            \<longrightarrow> POST_optimize_simple e (Some body) = (Some (Error_response 500 InternalError), []))
         \<and> (\<forall>projectId accessToken calls.
               getGoogleCloudProjectId e = Some projectId
               \<and> getGoogleCloudAccessToken w e = (Some accessToken, calls)
             \<longrightarrow> POST_optimize w e (Some body) = (Error_response 400 DeliveriesEmpty, calls)
                 \<and> (\<exists>jwt. calls = [Token_call jwt]))
         \<and> (getGoogleCloudProjectId e = None \<or> fst (getGoogleCloudAccessToken w e) = None
             \<longrightarrow> fst (POST_optimize w e (Some body)) = Error_response 500 InternalError)
         \<and> (\<forall>url authorization payload.
               Optimize_call url authorization payload \<notin> set (snd (POST_optimize w e (Some body))))"
proof (intro conjI allI impI)
  assume "\<not> falsy_string (GOOGLE_MAPS_API_KEY e)"
  with assms show "POST_optimize_simple e (Some body)
                  = (Some (Error_response 400 DeliveriesRequiredNonEmpty), [])"
    by (simp add: POST_optimize_simple_def)
next
  assume "falsy_string (GOOGLE_MAPS_API_KEY e)"
  then show "POST_optimize_simple e (Some body) = (Some (Error_response 500 InternalError), [])"
    by (simp add: POST_optimize_simple_def)
next
  fix projectId accessToken calls
  assume h: "getGoogleCloudProjectId e = Some projectId
               \<and> getGoogleCloudAccessToken w e = (Some accessToken, calls)"
  with assms show "POST_optimize w e (Some body) = (Error_response 400 DeliveriesEmpty, calls)"
    by (simp add: POST_optimize_def)
  from h have "getGoogleCloudAccessToken w e = (Some accessToken, calls)"
    by (rule conjunct2)
  then show "\<exists>jwt. calls = [Token_call jwt]"
    by (rule token_obtained_calls)
next
  assume "getGoogleCloudProjectId e = None \<or> fst (getGoogleCloudAccessToken w e) = None"
  then show "fst (POST_optimize w e (Some body)) = Error_response 500 InternalError"
    by (rule POST_optimize_unauthorised)
next
  fix url authorization payload
  show "Optimize_call url authorization payload \<notin> set (snd (POST_optimize w e (Some body)))"
  proof
    assume "Optimize_call url authorization payload \<in> set (snd (POST_optimize w e (Some body)))"
    from POST_optimize_calls [OF this] obtain ds where
      "deliveries body = Deliveries ds" and "ds \<noteq> []"
      by auto
    with assms show False
      by simp
  qed
qed

theorem empty_deliveries_rejected_witness:
  "POST_optimize_simple example_env
      (Some \<lparr>deliveries = Deliveries [], warehouseLocation = None, requestStartTime = None\<rparr>)
     = (Some (Error_response 400 DeliveriesRequiredNonEmpty), [])
   \<and> (\<exists>jwt. POST_optimize example_world example_env
      (Some \<lparr>deliveries = Deliveries [], warehouseLocation = None, requestStartTime = None\<rparr>)
     = (Error_response 400 DeliveriesEmpty, [Token_call jwt]))"
proof
  let ?body = "\<lparr>deliveries = Deliveries [], warehouseLocation = None, requestStartTime = None\<rparr>"
  obtain jwt where tok:
    "getGoogleCloudAccessToken example_world example_env = (Some (Some ''token''), [Token_call jwt])"
    using example_token by (elim exE)
  have k: "\<not> falsy_string (GOOGLE_MAPS_API_KEY example_env)"
    by (simp add: example_env_def falsy_string_def)
  have d: "deliveries ?body = Deliveries []"
    by simp
  note t = empty_deliveries_rejected [OF d, of example_env example_world]
  from t have "\<not> falsy_string (GOOGLE_MAPS_API_KEY example_env)
            \<longrightarrow> POST_optimize_simple example_env (Some ?body)
                  = (Some (Error_response 400 DeliveriesRequiredNonEmpty), [])"
    by (rule conjunct1)
  with k show "POST_optimize_simple example_env (Some ?body)
                  = (Some (Error_response 400 DeliveriesRequiredNonEmpty), [])"
    by (rule rev_mp)
  from t have "\<forall>projectId accessToken calls.
               getGoogleCloudProjectId example_env = Some projectId
               \<and> getGoogleCloudAccessToken example_world example_env = (Some accessToken, calls)
             \<longrightarrow> POST_optimize example_world example_env (Some ?body)
                   = (Error_response 400 DeliveriesEmpty, calls)
                 \<and> (\<exists>jwt. calls = [Token_call jwt])"
    by (elim conjE)
  then have "getGoogleCloudProjectId example_env = Some ''project''
               \<and> getGoogleCloudAccessToken example_world example_env
                   = (Some (Some ''token''), [Token_call jwt])
             \<longrightarrow> POST_optimize example_world example_env (Some ?body)
                   = (Error_response 400 DeliveriesEmpty, [Token_call jwt])
                 \<and> (\<exists>jwt'. [Token_call jwt] = [Token_call jwt'])"
    by (elim allE)
  with example_project tok have "POST_optimize example_world example_env (Some ?body)
                   = (Error_response 400 DeliveriesEmpty, [Token_call jwt])"
    by simp
  then show "\<exists>jwt. POST_optimize example_world example_env (Some ?body)
     = (Error_response 400 DeliveriesEmpty, [Token_call jwt])"
    by (rule exI)
qed

lemma delivery_validation_simple:
  assumes "\<not> falsy_string (GOOGLE_MAPS_API_KEY e)" and "deliveries body = Deliveries ds"
    and "d \<in> set ds" and "lat d = Some 0 \<or> lng d = Some 0"
  shows "POST_optimize_simple e (Some body)
           = (Some (Error_response 400 (MissingCoordinates
                (length (filter (\<lambda>d. falsy_number (lat d) \<or> falsy_number (lng d)) ds)))), [])"
proof -
  have "d \<in> set (filter (\<lambda>d. falsy_number (lat d) \<or> falsy_number (lng d)) ds)"
    using assms(3,4) by (auto simp: falsy_number_def)
  then have "0 < length (filter (\<lambda>d. falsy_number (lat d) \<or> falsy_number (lng d)) ds)"
    by (rule length_pos_if_in_set)
  moreover from assms(3) have "ds \<noteq> []"
    by auto
  ultimately show ?thesis
    using assms(1,2) by (simp add: POST_optimize_simple_def Let_def)
qed

lemma delivery_validation:
  assumes "getGoogleCloudProjectId e = Some projectId"
    and "getGoogleCloudAccessToken w e = (Some accessToken, calls)"
    and "deliveries body = Deliveries ds"
    and "d \<in> set ds" and "lat d = Some 0 \<or> lng d = Some 0"
  shows "POST_optimize w e (Some body)
           = (Error_response 400 (MissingCoordinates
                (length (filter (\<lambda>d. falsy_number (lat d) \<or> falsy_number (lng d)) ds))), calls)"
proof -
  have "d \<in> set (filter (\<lambda>d. falsy_number (lat d) \<or> falsy_number (lng d)) ds)"
    using assms(4,5) by (auto simp: falsy_number_def)
  then have "0 < length (filter (\<lambda>d. falsy_number (lat d) \<or> falsy_number (lng d)) ds)"
    by (rule length_pos_if_in_set)
  moreover from assms(4) have "ds \<noteq> []"
    by auto
  ultimately show ?thesis
    using assms(1,2,3) by (simp add: POST_optimize_def Let_def)
qed

lemma warehouse_validation_simple:
  assumes "\<not> falsy_string (GOOGLE_MAPS_API_KEY e)"
    and "warehouseLocation body = Some warehouse"
    and "lat warehouse = Some 0 \<or> lng warehouse = Some 0"
  shows "\<exists>err. POST_optimize_simple e (Some body) = (Some (Error_response 400 err), [])"
proof -
  have z: "falsy_number (lat warehouse) \<or> falsy_number (lng warehouse)"
    using assms(3) by (auto simp: falsy_number_def)
  show ?thesis
  proof (cases "deliveries body")
    case NoDeliveries
    then show ?thesis
      using assms(1) by (simp add: POST_optimize_simple_def)
  next
    case NotAnArray
    then show ?thesis
      using assms(1) by (simp add: POST_optimize_simple_def)
  next
    case (Deliveries ds)
    then show ?thesis
      using assms(1,2) z by (simp add: POST_optimize_simple_def Let_def)
  qed
qed

lemma warehouse_validation:
  assumes "getGoogleCloudProjectId e = Some projectId"
    and "getGoogleCloudAccessToken w e = (Some accessToken, calls)"
    and "warehouseLocation body = Some warehouse"
    and "lat warehouse = Some 0 \<or> lng warehouse = Some 0"
  shows "\<exists>err. POST_optimize w e (Some body) = (Error_response 400 err, calls)"
proof -
  have z: "falsy_number (lat warehouse) \<or> falsy_number (lng warehouse)"
    using assms(4) by (auto simp: falsy_number_def)
  show ?thesis
  proof (cases "deliveries body")
    case NoDeliveries
    then show ?thesis
      using assms(1,2) by (simp add: POST_optimize_def)
  next
    case NotAnArray
    then show ?thesis
      using assms(1,2) by (simp add: POST_optimize_def)
  next
    case (Deliveries ds)
    then show ?thesis
      using assms(1,2,3) z by (simp add: POST_optimize_def Let_def)
  qed
qed


text \<open>
  C10. In both endpoints, once the handler has its configuration (the API key; the
  project id and the access token), a request with a delivery whose \<open>lat\<close> or \<open>lng\<close>
  is 0, or with a warehouse whose \<open>lat\<close> or \<open>lng\<close> is 0, is answered with status 400.
\<close>

theorem zero_coordinates_are_missing:
  assumes "(\<exists>ds d. deliveries body = Deliveries ds \<and> d \<in> set ds
                \<and> (lat d = Some 0 \<or> lng d = Some 0))
           \<or> (\<exists>warehouse. warehouseLocation body = Some warehouse
                \<and> (lat warehouse = Some 0 \<or> lng warehouse = Some 0))"
  shows "(\<not> falsy_string (GOOGLE_MAPS_API_KEY e)
            \<longrightarrow> (\<exists>err. POST_optimize_simple e (Some body) = (Some (Error_response 400 err), [])))
         \<and> (\<forall>projectId accessToken calls.
               getGoogleCloudProjectId e = Some projectId
               \<and> getGoogleCloudAccessToken w e = (Some accessToken, calls)
             \<longrightarrow> (\<exists>err. POST_optimize w e (Some body) = (Error_response 400 err, calls)))"
  using assms
proof
  assume "\<exists>ds d. deliveries body = Deliveries ds \<and> d \<in> set ds
                \<and> (lat d = Some 0 \<or> lng d = Some 0)"
  then obtain ds d where ds: "deliveries body = Deliveries ds" and d: "d \<in> set ds"
    and z: "lat d = Some 0 \<or> lng d = Some 0"
    by (elim exE conjE)
  show ?thesis
  proof (intro conjI allI impI)
    assume "\<not> falsy_string (GOOGLE_MAPS_API_KEY e)"
    from delivery_validation_simple [OF this ds d z]
    show "\<exists>err. POST_optimize_simple e (Some body) = (Some (Error_response 400 err), [])"
      by (rule exI)
  next
    fix projectId accessToken calls
    assume "getGoogleCloudProjectId e = Some projectId
               \<and> getGoogleCloudAccessToken w e = (Some accessToken, calls)"
    then have "getGoogleCloudProjectId e = Some projectId"
      and "getGoogleCloudAccessToken w e = (Some accessToken, calls)"
      by simp_all
    from delivery_validation [OF this ds d z]
    show "\<exists>err. POST_optimize w e (Some body) = (Error_response 400 err, calls)"
      by (rule exI)
  qed
next
  assume "\<exists>warehouse. warehouseLocation body = Some warehouse
                \<and> (lat warehouse = Some 0 \<or> lng warehouse = Some 0)"
  then obtain warehouse where wh: "warehouseLocation body = Some warehouse"
    and z: "lat warehouse = Some 0 \<or> lng warehouse = Some 0"
    by (elim exE conjE)
  show ?thesis
  proof (intro conjI allI impI)
    assume "\<not> falsy_string (GOOGLE_MAPS_API_KEY e)"
    from warehouse_validation_simple [OF this wh z]
    show "\<exists>err. POST_optimize_simple e (Some body) = (Some (Error_response 400 err), [])" .
  next
    fix projectId accessToken calls
    assume "getGoogleCloudProjectId e = Some projectId
               \<and> getGoogleCloudAccessToken w e = (Some accessToken, calls)"
    then have "getGoogleCloudProjectId e = Some projectId"
      and "getGoogleCloudAccessToken w e = (Some accessToken, calls)"
      by simp_all
    from warehouse_validation [OF this wh z]
    show "\<exists>err. POST_optimize w e (Some body) = (Error_response 400 err, calls)" .
  qed
qed

theorem zero_coordinates_are_missing_witness:
  "(\<exists>err. POST_optimize_simple example_env
      (Some \<lparr>deliveries = Deliveries [stop_at ''A'' 0 1],
             warehouseLocation = Some \<lparr>lat = Some 42, lng = Some (- 5)\<rparr>,
             requestStartTime = None\<rparr>)
     = (Some (Error_response 400 err), []))
   \<and> (\<exists>err calls. POST_optimize example_world example_env
      (Some \<lparr>deliveries = Deliveries [stop_at ''A'' 41 (- 4)],
             warehouseLocation = Some \<lparr>lat = Some 42, lng = Some 0\<rparr>,
             requestStartTime = None\<rparr>)
     = (Error_response 400 err, calls))"
proof
  let ?b1 = "\<lparr>deliveries = Deliveries [stop_at ''A'' 0 1],
             warehouseLocation = Some \<lparr>lat = Some 42, lng = Some (- 5)\<rparr>,
             requestStartTime = None\<rparr>"
  let ?b2 = "\<lparr>deliveries = Deliveries [stop_at ''A'' 41 (- 4)],
             warehouseLocation = Some \<lparr>lat = Some 42, lng = Some 0\<rparr>,
             requestStartTime = None\<rparr>"
  obtain jwt where tok:
    "getGoogleCloudAccessToken example_world example_env = (Some (Some ''token''), [Token_call jwt])"
    using example_token by (elim exE)
  have k: "\<not> falsy_string (GOOGLE_MAPS_API_KEY example_env)"
    by (simp add: example_env_def falsy_string_def)
  have h1: "(\<exists>ds d. deliveries ?b1 = Deliveries ds \<and> d \<in> set ds
                \<and> (lat d = Some 0 \<or> lng d = Some 0))
           \<or> (\<exists>warehouse. warehouseLocation ?b1 = Some warehouse
                \<and> (lat warehouse = Some 0 \<or> lng warehouse = Some 0))"
    by (simp add: stop_at_coords)
  have h2: "(\<exists>ds d. deliveries ?b2 = Deliveries ds \<and> d \<in> set ds
                \<and> (lat d = Some 0 \<or> lng d = Some 0))
           \<or> (\<exists>warehouse. warehouseLocation ?b2 = Some warehouse
                \<and> (lat warehouse = Some 0 \<or> lng warehouse = Some 0))"
    by simp
  from zero_coordinates_are_missing [OF h1, of example_env example_world]
  have "\<not> falsy_string (GOOGLE_MAPS_API_KEY example_env)
            \<longrightarrow> (\<exists>err. POST_optimize_simple example_env (Some ?b1)
                   = (Some (Error_response 400 err), []))"
    by (rule conjunct1)
  with k show "\<exists>err. POST_optimize_simple example_env (Some ?b1)
                   = (Some (Error_response 400 err), [])"
    by (rule rev_mp)
  from zero_coordinates_are_missing [OF h2, of example_env example_world]
  have "\<forall>projectId accessToken calls.
               getGoogleCloudProjectId example_env = Some projectId
               \<and> getGoogleCloudAccessToken example_world example_env = (Some accessToken, calls)
             \<longrightarrow> (\<exists>err. POST_optimize example_world example_env (Some ?b2)
                    = (Error_response 400 err, calls))"
    by (rule conjunct2)
  then have "getGoogleCloudProjectId example_env = Some ''project''
               \<and> getGoogleCloudAccessToken example_world example_env
                   = (Some (Some ''token''), [Token_call jwt])
             \<longrightarrow> (\<exists>err. POST_optimize example_world example_env (Some ?b2)
                    = (Error_response 400 err, [Token_call jwt]))"
    by (elim allE)
  with example_project tok
  have "\<exists>err. POST_optimize example_world example_env (Some ?b2)
                    = (Error_response 400 err, [Token_call jwt])"
    by simp
  then obtain err where "POST_optimize example_world example_env (Some ?b2)
                    = (Error_response 400 err, [Token_call jwt])"
    by (elim exE)
  then show "\<exists>err calls. POST_optimize example_world example_env (Some ?b2)
                    = (Error_response 400 err, calls)"
    by (intro exI)
qed

end
